theory Spec2Isabelle
  imports Main "HOL-Library.Word"
begin

unbundle bit_operations_syntax

section \<open>Core types (core/crunch\_types.hpp)\<close>

type_synonym byte = "8 word"
type_synonym FieldId = int
type_synonym MessageId = "32 word"

datatype Format = Packed | Aligned4 | Aligned8 | TLV

fun Format_byte :: "Format \<Rightarrow> byte" where
  "Format_byte Packed = 0x01"
| "Format_byte Aligned4 = 0x02"
| "Format_byte Aligned8 = 0x03"
| "Format_byte TLV = 0x04"

definition StandardHeaderSize :: nat where
  "StandardHeaderSize = 1 + 1 + 4"

definition CrunchVersion :: byte where
  "CrunchVersion = 0x03"

datatype ErrorCode =
    UNKNOWN
  | IntegrityCheckFailed
  | DeserializationError
  | ValidationFailed
  | InvalidMessageId
  | InvalidFormat
  | CapacityExceeded

record Error =
  code :: ErrorCode
  field_id :: FieldId
  message :: string

definition Error_integrity :: Error where
  "Error_integrity =
     \<lparr>code = IntegrityCheckFailed, field_id = 0, message = ''integrity check failed''\<rparr>"

definition Error_validation :: "FieldId \<Rightarrow> string \<Rightarrow> Error" where
  "Error_validation i msg = \<lparr>code = ValidationFailed, field_id = i, message = msg\<rparr>"

definition Error_deserialization :: "string \<Rightarrow> Error" where
  "Error_deserialization msg = \<lparr>code = DeserializationError, field_id = 0, message = msg\<rparr>"

definition Error_invalid_message_id :: Error where
  "Error_invalid_message_id =
     \<lparr>code = InvalidMessageId, field_id = 0, message = ''invalid message id''\<rparr>"

definition Error_invalid_format :: Error where
  "Error_invalid_format =
     \<lparr>code = InvalidFormat, field_id = 0, message = ''invalid serialization format''\<rparr>"

definition Error_capacity_exceeded :: "FieldId \<Rightarrow> string \<Rightarrow> Error" where
  "Error_capacity_exceeded i msg = \<lparr>code = CapacityExceeded, field_id = i, message = msg\<rparr>"

text \<open>The idiom \<open>for (const auto& result : {Validators::Check(v, id)...})\<close>: every
  validator is evaluated and the first error, in declaration order, is returned.\<close>

fun first_error :: "Error option list \<Rightarrow> Error option" where
  "first_error [] = None"
| "first_error (None # rs) = first_error rs"
| "first_error (Some e # rs) = Some e"

section \<open>Validators (validators/crunch\_validators.hpp)\<close>

text \<open>A validator is any type with a static \<open>Check(value, field_id)\<close>; it is modelled by
  that function. Integer values are mathematical integers within the range of their
  scalar type.\<close>

type_synonym 'a Validator = "'a \<Rightarrow> FieldId \<Rightarrow> Error option"

datatype Presence = Required | Optional

fun check_presence :: "Presence \<Rightarrow> bool \<Rightarrow> FieldId \<Rightarrow> Error option" where
  "check_presence Required is_set i =
     (if \<not> is_set then Some (Error_validation i ''field is required but not set'') else None)"
| "check_presence Optional is_set i = None"

definition None_Check :: "'a Validator" where
  "None_Check v i = None"

definition Positive_Check :: "int Validator" where
  "Positive_Check v i = (if v \<ge> 0 then None else Some (Error_validation i ''must be >= 0''))"

definition Negative_Check :: "int Validator" where
  "Negative_Check v i = (if v < 0 then None else Some (Error_validation i ''must be < 0''))"

definition NotZero_Check :: "int Validator" where
  "NotZero_Check v i = (if v \<noteq> 0 then None else Some (Error_validation i ''must be != 0''))"

definition NullTerminated_Check :: "byte list Validator" where
  "NullTerminated_Check sv i =
     (if sv \<noteq> [] \<and> last sv = 0 then None
      else Some (Error_validation i ''must count null terminator''))"

section \<open>Integrity policies (integrity/crunch\_integrity.hpp)\<close>

datatype Integrity = Integrity_None | CRC16 | Parity

fun Integrity_size :: "Integrity \<Rightarrow> nat" where
  "Integrity_size Integrity_None = 0"
| "Integrity_size CRC16 = 2"
| "Integrity_size Parity = 1"

text \<open>The inner loop of \<open>CRC16::calculate\<close>: \<open>n\<close> rounds of shift-and-conditional-xor on
  the 16-bit register.\<close>

definition crc16_round :: "16 word \<Rightarrow> 16 word" where
  "crc16_round crc =
     (if crc AND 0x8000 \<noteq> 0 then push_bit 1 crc XOR 0x1021 else push_bit 1 crc)"

fun crc16_rounds :: "nat \<Rightarrow> 16 word \<Rightarrow> 16 word" where
  "crc16_rounds 0 crc = crc"
| "crc16_rounds (Suc n) crc = crc16_rounds n (crc16_round crc)"

definition crc16_byte :: "16 word \<Rightarrow> byte \<Rightarrow> 16 word" where
  "crc16_byte crc b = crc16_rounds 8 (crc XOR push_bit 8 (ucast b))"

definition CRC16_register :: "byte list \<Rightarrow> 16 word" where
  "CRC16_register data = foldl crc16_byte 0xFFFF data"

definition CRC16_calculate :: "byte list \<Rightarrow> byte list" where
  "CRC16_calculate data =
     (let crc = CRC16_register data
      in [ucast (drop_bit 8 crc AND 0xFF), ucast (crc AND 0xFF)])"

definition Parity_calculate :: "byte list \<Rightarrow> byte list" where
  "Parity_calculate data = [foldl (XOR) 0 data]"

fun Integrity_calculate :: "Integrity \<Rightarrow> byte list \<Rightarrow> byte list" where
  "Integrity_calculate Integrity_None data = []"
| "Integrity_calculate CRC16 data = CRC16_calculate data"
| "Integrity_calculate Parity data = Parity_calculate data"

text \<open>CRC-16-CCITT as the specification words it: a bit-serial division by the
  polynomial 0x1021 on a register initialised to 0xFFFF, the message bits entering most
  significant bit first, no final XOR, the register stored high byte first.\<close>

definition ccitt_bit :: "16 word \<Rightarrow> bool \<Rightarrow> 16 word" where
  "ccitt_bit reg b =
     (if bit reg 15 \<noteq> b then push_bit 1 reg XOR 0x1021 else push_bit 1 reg)"

definition bits_msb_first :: "byte \<Rightarrow> bool list" where
  "bits_msb_first b = map (bit b) [7, 6, 5, 4, 3, 2, 1, 0]"

definition CCITT_spec :: "byte list \<Rightarrow> byte list" where
  "CCITT_spec data =
     (let reg = foldl ccitt_bit 0xFFFF (concat (map bits_msb_first data))
      in [ucast (drop_bit 8 reg), ucast reg])"

text \<open>The \<open>n\<close> most significant bits of a 16-bit word, most significant first.\<close>

fun top_bits :: "nat \<Rightarrow> 16 word \<Rightarrow> bool list" where
  "top_bits 0 w = []"
| "top_bits (Suc n) w = bit w 15 # top_bits n (push_bit 1 w)"

section \<open>Varint (serdes/crunch\_varint.hpp)\<close>

text \<open>The loop of \<open>Varint::decode\<close>, with its three locals as arguments.\<close>

function decode_loop ::
  "byte list \<Rightarrow> nat \<Rightarrow> 64 word \<Rightarrow> nat \<Rightarrow> nat \<Rightarrow> (64 word \<times> nat) option" where
  "decode_loop input offset val shift bytes_read =
     (if offset + bytes_read < length input then
        (let b = input ! (offset + bytes_read);
             bytes_read' = bytes_read + 1
         in if shift \<ge> 64 then None
            else
              (let val' = val OR push_bit shift (ucast (b AND 0x7F));
                   shift' = shift + 7
               in if b AND 0x80 = 0 then Some (val', bytes_read')
                  else decode_loop input offset val' shift' bytes_read'))
      else None)"
  by pat_completeness auto
termination
  by (relation "measure (\<lambda>(input, offset, val, shift, bytes_read).
        length input - (offset + bytes_read))") auto

definition Varint_decode :: "byte list \<Rightarrow> nat \<Rightarrow> (64 word \<times> nat) option" where
  "Varint_decode input offset = decode_loop input offset 0 0 0"

text \<open>The number an unsigned LEB128 byte string denotes: seven payload bits per byte,
  least significant group first.\<close>

fun leb128_value :: "byte list \<Rightarrow> nat" where
  "leb128_value [] = 0"
| "leb128_value (b # bs) = unat (b AND 0x7F) + 128 * leb128_value bs"


section \<open>String (fields/crunch\_string.hpp)\<close>

text \<open>\<open>String<MaxSize, Validators...>\<close>: the array \<open>buffer_\<close> of \<open>MaxSize\<close> bytes and the
  length \<open>current_len\<close>. \<open>MaxSize\<close> and the validator pack are template parameters; they
  are arguments of the operations.\<close>

record String =
  buffer :: "byte list"
  current_len :: nat

definition String_default :: "nat \<Rightarrow> String" where
  "String_default MaxSize = \<lparr>buffer = replicate MaxSize 0, current_len = 0\<rparr>"

definition String_get :: "String \<Rightarrow> byte list" where
  "String_get s = take (current_len s) (buffer s)"

definition String_Validate :: "byte list Validator list \<Rightarrow> byte list \<Rightarrow> FieldId \<Rightarrow> Error option" where
  "String_Validate Validators v i = first_error (map (\<lambda>V. V v i) Validators)"

text \<open>\<open>String::set\<close> returns the error, if any, and the string afterwards.\<close>

definition String_set ::
  "nat \<Rightarrow> byte list Validator list \<Rightarrow> byte list \<Rightarrow> String \<Rightarrow> Error option \<times> String" where
  "String_set MaxSize Validators sv s =
     (if length sv > MaxSize then
        (Some (Error_capacity_exceeded 0 ''string exceeds capacity''), s)
      else
        (case String_Validate Validators sv 0 of
           Some err \<Rightarrow> (Some err, s)
         | None \<Rightarrow>
             (let copied = sv @ drop (length sv) (buffer s);
                  filled = take (length sv) copied @ replicate (MaxSize - length sv) 0
              in (None, \<lparr>buffer = filled, current_len = length sv\<rparr>))))"

definition String_clear :: "String \<Rightarrow> String" where
  "String_clear s = \<lparr>buffer = replicate (length (buffer s)) 0, current_len = 0\<rparr>"

text \<open>The constructor \<open>String(sv)\<close>: \<open>set\<close> on the default string, the error discarded.\<close>

definition String_construct :: "nat \<Rightarrow> byte list Validator list \<Rightarrow> byte list \<Rightarrow> String" where
  "String_construct MaxSize Validators sv = snd (String_set MaxSize Validators sv (String_default MaxSize))"

text \<open>The invariant of the specification: the length is at most \<open>MaxSize\<close> and every
  byte of the buffer at or after the length is zero.\<close>

definition String_inv :: "nat \<Rightarrow> String \<Rightarrow> bool" where
  "String_inv MaxSize s \<longleftrightarrow>
     length (buffer s) = MaxSize \<and> current_len s \<le> MaxSize \<and>
     list_all (\<lambda>b. b = 0) (drop (current_len s) (buffer s))"

section \<open>MapField (messages/crunch\_field.hpp)\<close>

text \<open>\<open>MapField<Id, KeyField, ValueField, MaxSize, Validators...>\<close>: the array \<open>items_\<close> of
  \<open>MaxSize\<close> pairs of fields and the length. What \<open>insert\<close> selects by \<open>if constexpr\<close> on
  the kind of a key or value field is gathered in a record: how a value is validated
  before insertion, how it is stored into a field of the array (\<open>set_without_validation\<close>
  for a scalar, \<open>set\<close> with the result discarded for a string, assignment otherwise), and
  how the stored field is read back for \<open>key_equals\<close>.\<close>

record ('f, 'a) FieldKind =
  kind_Validate :: "'a \<Rightarrow> Error option"
  kind_store :: "'f \<Rightarrow> 'a \<Rightarrow> 'f"
  kind_get :: "'f \<Rightarrow> 'a"

record ('kf, 'vf) MapField =
  map_items :: "('kf \<times> 'vf) list"
  map_current_len :: nat

definition key_equals :: "('kf, 'k) FieldKind \<Rightarrow> 'kf \<Rightarrow> 'k \<Rightarrow> bool" where
  "key_equals K stored k \<longleftrightarrow> kind_get K stored = k"

text \<open>\<open>MapField::at\<close>: the index of the first active pair whose key equals \<open>key\<close>
  (the source returns a pointer to that pair's value field).\<close>

fun at_from :: "('kf, 'k) FieldKind \<Rightarrow> ('kf \<times> 'vf) list \<Rightarrow> nat \<Rightarrow> 'k \<Rightarrow> nat option" where
  "at_from K [] i k = None"
| "at_from K (p # ps) i k = (if key_equals K (fst p) k then Some i else at_from K ps (Suc i) k)"

definition MapField_at :: "('kf, 'k) FieldKind \<Rightarrow> ('kf, 'vf) MapField \<Rightarrow> 'k \<Rightarrow> nat option" where
  "MapField_at K m k = at_from K (take (map_current_len m) (map_items m)) 0 k"

definition MapField_insert ::
  "FieldId \<Rightarrow> nat \<Rightarrow> ('kf, 'k) FieldKind \<Rightarrow> ('vf, 'v) FieldKind \<Rightarrow>
   'k \<Rightarrow> 'v \<Rightarrow> ('kf, 'vf) MapField \<Rightarrow> Error option \<times> ('kf, 'vf) MapField" where
  "MapField_insert fid MaxSize K V k v m =
     (case kind_Validate K k of
        Some err \<Rightarrow> (Some err, m)
      | None \<Rightarrow>
     (case kind_Validate V v of
        Some err \<Rightarrow> (Some err, m)
      | None \<Rightarrow>
          if map_current_len m \<ge> MaxSize then
            (Some (Error_capacity_exceeded fid ''map capacity exceeded''), m)
          else if MapField_at K m k \<noteq> None then
            (Some (Error_validation fid ''Duplicate key in map''), m)
          else
            (let pair = map_items m ! map_current_len m;
                 pair' = (kind_store K (fst pair) k, kind_store V (snd pair) v)
             in (None, \<lparr>map_items = (map_items m)[map_current_len m := pair'],
                        map_current_len = map_current_len m + 1\<rparr>))))"

text \<open>A scalar field as key or value: \<open>Scalar::Validate(v, 0)\<close> and
  \<open>set_without_validation\<close>.\<close>

definition Scalar_Validate :: "int Validator list \<Rightarrow> int \<Rightarrow> FieldId \<Rightarrow> Error option" where
  "Scalar_Validate Validators v i = first_error (map (\<lambda>V. V v i) Validators)"

definition ScalarKind :: "int Validator list \<Rightarrow> (int, int) FieldKind" where
  "ScalarKind Validators =
     \<lparr>kind_Validate = (\<lambda>v. Scalar_Validate Validators v 0),
      kind_store = (\<lambda>f v. v),
      kind_get = (\<lambda>f. f)\<rparr>"

definition StringKind :: "nat \<Rightarrow> byte list Validator list \<Rightarrow> (String, byte list) FieldKind" where
  "StringKind MaxSize Validators =
     \<lparr>kind_Validate = (\<lambda>v. String_Validate Validators v 0),
      kind_store = (\<lambda>f v. snd (String_set MaxSize Validators v f)),
      kind_get = String_get\<rparr>"


section \<open>Message schemas and values\<close>

text \<open>The source describes a message by types: \<open>Scalar<T, Validators...>\<close>,
  \<open>String<MaxSize, Validators...>\<close>, a message struct with its \<open>message_id\<close>, its field
  tuple and its \<open>Validate()\<close> hook, \<open>ArrayField<Id, Element, MaxSize, Validators...>\<close>,
  \<open>MapField<Id, Key, Value, MaxSize, Validators...>\<close> and, as members of a message,
  \<open>Field<Id, Presence, Type>\<close> or an array or map field itself. These types are the
  schema \<open>ty\<close>; an object of such a type is a \<open>val\<close> holding the data members of the
  class. The floating-point scalars are left out.\<close>

datatype ScalarType = Int8 | Int16 | Int32 | Int64 | UInt8 | UInt16 | UInt32 | UInt64 | Bool

fun sizeof :: "ScalarType \<Rightarrow> nat" where
  "sizeof Int8 = 1" | "sizeof Int16 = 2" | "sizeof Int32 = 4" | "sizeof Int64 = 8"
| "sizeof UInt8 = 1" | "sizeof UInt16 = 2" | "sizeof UInt32 = 4" | "sizeof UInt64 = 8"
| "sizeof Bool = 1"

fun is_signed :: "ScalarType \<Rightarrow> bool" where
  "is_signed Int8 = True" | "is_signed Int16 = True" | "is_signed Int32 = True"
| "is_signed Int64 = True" | "is_signed t = False"

datatype val =
    VScalar int
  | VString String
  | VMessage "fval list"
  | VArrayField "val list" nat
  | VMapField "(val \<times> val) list" nat
and fval =
    FieldV val bool
  | MemberV val

datatype ty =
    TScalar ScalarType "int Validator list"
  | TString nat "byte list Validator list"
  | TMessage MessageId "fld list" "val \<Rightarrow> Error option"
  | TArrayField FieldId ty nat "val Validator list"
  | TMapField FieldId ty ty nat "val Validator list"
and fld =
    Field FieldId Presence ty
  | Member ty

text \<open>Value initialisation (\<open>T{}\<close>).\<close>

fun default_val :: "ty \<Rightarrow> val"
  and default_fvals :: "fld list \<Rightarrow> fval list"
  and default_fval :: "fld \<Rightarrow> fval" where
  "default_val (TScalar st vs) = VScalar 0"
| "default_val (TString n vs) = VString (String_default n)"
| "default_val (TMessage mid flds hook) = VMessage (default_fvals flds)"
| "default_val (TArrayField i t n vs) = VArrayField (replicate n (default_val t)) 0"
| "default_val (TMapField i k v n vs) = VMapField (replicate n (default_val k, default_val v)) 0"
| "default_fvals [] = []"
| "default_fvals (f # fs) = default_fval f # default_fvals fs"
| "default_fval (Field i p t) = FieldV (default_val t) False"
| "default_fval (Member t) = MemberV (default_val t)"

text \<open>Container validators take the container itself; \<open>std::size\<close> of an array or map
  field is its current length.\<close>

fun container_size :: "val \<Rightarrow> nat" where
  "container_size (VArrayField items len) = len"
| "container_size (VMapField items len) = len"
| "container_size (VString s) = current_len s"
| "container_size v = 0"

definition Length_Check :: "nat \<Rightarrow> val Validator" where
  "Length_Check N v i =
     (if container_size v = N then None else Some (Error_validation i ''length mismatch''))"

definition LengthAtLeast_Check :: "nat \<Rightarrow> val Validator" where
  "LengthAtLeast_Check N v i =
     (if container_size v \<ge> N then None
      else Some (Error_validation i ''length must be at least N''))"

definition LengthAtMost_Check :: "nat \<Rightarrow> val Validator" where
  "LengthAtMost_Check N v i =
     (if container_size v \<le> N then None
      else Some (Error_validation i ''length must be at most N''))"

section \<open>Message validation (crunch\_detail.hpp, crunch\_field.hpp)\<close>

text \<open>The conversion of a \<open>FieldId\<close> to a scalar type, as an implicit conversion of a
  32-bit signed integer does it.\<close>

definition convert_to :: "ScalarType \<Rightarrow> int \<Rightarrow> int" where
  "convert_to st i =
     (if st = Bool then (if i \<noteq> 0 then 1 else 0)
      else if is_signed st then
        ((i + 2 ^ (8 * sizeof st - 1)) mod 2 ^ (8 * sizeof st)) - 2 ^ (8 * sizeof st - 1)
      else i mod 2 ^ (8 * sizeof st))"

text \<open>\<open>value_Validate\<close> is the member \<open>Validate()\<close> of each kind of value. The loops of
  \<open>ArrayField::Validate\<close> and \<open>MapField::Validate\<close> return the first error of the
  elements in order. On an element \<open>ArrayField::Validate\<close> calls, for a type with
  \<open>Validate(id)\<close> that call (for a scalar it resolves to the static
  \<open>Validate(ScalarType v, FieldId id = 0)\<close> with the field id converted to the scalar's
  type as \<open>v\<close>; for a string to \<open>Validate(FieldId)\<close>), otherwise \<open>Validate()\<close>.
  \<open>Validate\<close> is \<open>detail::Validate\<close> and \<open>ValidateField\<close> its helper; a message's own
  \<open>Validate()\<close> is its hook.\<close>

fun value_Validate :: "ty \<Rightarrow> val \<Rightarrow> Error option" where
  "value_Validate (TScalar st vs) (VScalar x) = Scalar_Validate vs x 0"
| "value_Validate (TString n vs) (VString s) = String_Validate vs (String_get s) 0"
| "value_Validate (TMessage mid flds hook) v = hook v"
| "value_Validate (TArrayField i t n vs) (VArrayField items len) =
     (case first_error
             (map (\<lambda>x. case t of
                         TScalar st svs \<Rightarrow> Scalar_Validate svs (convert_to st i) 0
                       | TString m svs \<Rightarrow>
                           (case x of VString s \<Rightarrow> String_Validate svs (String_get s) i
                                    | _ \<Rightarrow> None)
                       | _ \<Rightarrow> value_Validate t x)
                  (take len items)) of
        Some err \<Rightarrow> Some err
      | None \<Rightarrow> first_error (map (\<lambda>V. V (VArrayField items len) i) vs))"
| "value_Validate (TMapField i k v n vs) (VMapField items len) =
     (case first_error
             (concat (map (\<lambda>p. [value_Validate k (fst p), value_Validate v (snd p)])
                          (take len items))) of
        Some err \<Rightarrow> Some err
      | None \<Rightarrow> first_error (map (\<lambda>V. V (VMapField items len) i) vs))"
| "value_Validate t v = None"

fun Validate :: "ty \<Rightarrow> val \<Rightarrow> Error option"
  and ValidateFields :: "fld list \<Rightarrow> fval list \<Rightarrow> Error option"
  and ValidateField :: "fld \<Rightarrow> fval \<Rightarrow> Error option" where
  "Validate (TMessage mid flds hook) (VMessage fvs) =
     (case ValidateFields flds fvs of
        Some err \<Rightarrow> Some err
      | None \<Rightarrow> hook (VMessage fvs))"
| "Validate t v = None"
| "ValidateFields (f # fs) (x # xs) =
     (case ValidateField f x of
        Some err \<Rightarrow> Some err
      | None \<Rightarrow> ValidateFields fs xs)"
| "ValidateFields fs xs = None"
| "ValidateField (Field i p t) (FieldV v is_set) =
     (case check_presence p is_set i of
        Some err \<Rightarrow> Some err
      | None \<Rightarrow>
          (case t of
             TMessage mid flds hook \<Rightarrow> (if is_set then Validate t v else None)
           | _ \<Rightarrow> (if \<not> is_set then None else value_Validate t v)))"
| "ValidateField (Member t) (MemberV v) = value_Validate t v"
| "ValidateField f x = None"

section \<open>Static layout (serdes/crunch\_static\_layout.hpp)\<close>

text \<open>A call either completes, returns an \<open>Error\<close>, or has no defined behaviour: the
  source reads and writes its spans without a bounds check, and an access outside the
  span is \<open>Undefined\<close>. The model gives \<open>Undefined\<close> also to a value that is not an object
  of the type at hand, which the source's type system excludes.\<close>

datatype 'a result = Ok 'a | Err Error | Undefined

fun and_then :: "'a result \<Rightarrow> ('a \<Rightarrow> 'b result) \<Rightarrow> 'b result" where
  "and_then (Ok x) f = f x"
| "and_then (Err e) f = Err e"
| "and_then Undefined f = Undefined"

definition memset :: "byte list \<Rightarrow> nat \<Rightarrow> nat \<Rightarrow> byte list result" where
  "memset output offset n =
     (if offset + n \<le> length output
      then Ok (take offset output @ replicate n 0 @ drop (offset + n) output)
      else Undefined)"

definition memcpy :: "byte list \<Rightarrow> nat \<Rightarrow> byte list \<Rightarrow> byte list result" where
  "memcpy output offset src =
     (if offset + length src \<le> length output
      then Ok (take offset output @ src @ drop (offset + length src) output)
      else Undefined)"

definition read_bytes :: "byte list \<Rightarrow> nat \<Rightarrow> nat \<Rightarrow> byte list result" where
  "read_bytes input offset n =
     (if offset + n \<le> length input then Ok (take n (drop offset input)) else Undefined)"

text \<open>Little-endian bytes of an integer of \<open>n\<close> bytes (two's complement), and back.\<close>

definition le_bytes :: "nat \<Rightarrow> int \<Rightarrow> byte list" where
  "le_bytes n x = map (\<lambda>i. word_of_int (x div 256 ^ i)) [0..<n]"

fun le_uint :: "byte list \<Rightarrow> int" where
  "le_uint [] = 0"
| "le_uint (b # bs) = uint b + 256 * le_uint bs"

definition le_value :: "ScalarType \<Rightarrow> byte list \<Rightarrow> int" where
  "le_value st bs =
     (let u = le_uint bs
      in if is_signed st \<and> u \<ge> 2 ^ (8 * sizeof st - 1) then u - 2 ^ (8 * sizeof st) else u)"

definition align_up :: "nat \<Rightarrow> nat \<Rightarrow> nat" where
  "align_up v alignment =
     unat ((word_of_nat v + word_of_nat alignment - 1 :: 64 word)
           AND NOT (word_of_nat alignment - 1))"

definition calculate_padding :: "nat \<Rightarrow> nat \<Rightarrow> nat \<Rightarrow> nat" where
  "calculate_padding Alignment size_T offset =
     (let align = min size_T Alignment in (align - offset mod align) mod align)"

definition PayloadStartOffset :: "nat \<Rightarrow> nat" where
  "PayloadStartOffset Alignment = align_up StandardHeaderSize Alignment"

function calculate_value_end_offset :: "nat \<Rightarrow> ty \<Rightarrow> nat \<Rightarrow> nat"
  and calculate_fields_end_offset :: "nat \<Rightarrow> fld list \<Rightarrow> nat \<Rightarrow> nat"
  and calculate_field_end_offset :: "nat \<Rightarrow> fld \<Rightarrow> nat \<Rightarrow> nat"
  and calculate_slots_end_offset :: "nat \<Rightarrow> ty \<Rightarrow> nat \<Rightarrow> nat \<Rightarrow> nat"
  and calculate_pairs_end_offset :: "nat \<Rightarrow> ty \<Rightarrow> ty \<Rightarrow> nat \<Rightarrow> nat \<Rightarrow> nat" where
  "calculate_value_end_offset A (TScalar st vs) offset =
     offset + calculate_padding A (sizeof st) offset + sizeof st"
| "calculate_value_end_offset A (TString n vs) offset =
     offset + calculate_padding A 4 offset + 4 + n"
| "calculate_value_end_offset A (TMessage mid flds hook) offset =
     offset + calculate_padding A A offset + 4 + calculate_fields_end_offset A flds 0"
| "calculate_value_end_offset A (TArrayField i t n vs) offset =
     calculate_slots_end_offset A t n (offset + calculate_padding A 4 offset + 4)"
| "calculate_value_end_offset A (TMapField i k v n vs) offset =
     calculate_pairs_end_offset A k v n (offset + calculate_padding A 4 offset + 4)"
| "calculate_fields_end_offset A [] offset = offset"
| "calculate_fields_end_offset A (f # fs) offset =
     calculate_fields_end_offset A fs (calculate_field_end_offset A f offset)"
| "calculate_field_end_offset A (Field i p t) offset = calculate_value_end_offset A t (offset + 1)"
| "calculate_field_end_offset A (Member t) offset = calculate_value_end_offset A t offset"
| "calculate_slots_end_offset A t 0 offset = offset"
| "calculate_slots_end_offset A t (Suc n) offset =
     calculate_slots_end_offset A t n (calculate_value_end_offset A t offset)"
| "calculate_pairs_end_offset A k v 0 offset = offset"
| "calculate_pairs_end_offset A k v (Suc n) offset =
     calculate_pairs_end_offset A k v n
       (calculate_value_end_offset A v (calculate_value_end_offset A k offset))"
  by pat_completeness auto
termination
  by (relation "inv_image (less_than <*lex*> less_than <*lex*> less_than)
        (case_sum
          (case_sum (\<lambda>(A, t, offset). (size t, 1, 0))
                    (\<lambda>(A, fs, offset). (size_list size fs, 0, 0)))
          (case_sum (\<lambda>(A, f, offset). (size f, 0, 0))
            (case_sum (\<lambda>(A, t, n, offset). (size t, 2, n))
                      (\<lambda>(A, k, v, n, offset). (size k + size v + 1, 0, n)))))")
     auto


fun zero_fill_slots :: "nat \<Rightarrow> ty \<Rightarrow> nat \<Rightarrow> byte list \<Rightarrow> nat \<Rightarrow> (byte list \<times> nat) result" where
  "zero_fill_slots A t 0 output offset = Ok (output, offset)"
| "zero_fill_slots A t (Suc n) output offset =
     (let end = calculate_value_end_offset A t offset
      in and_then (memset output offset (end - offset))
           (\<lambda>output. zero_fill_slots A t n output end))"

fun zero_fill_pairs ::
  "nat \<Rightarrow> ty \<Rightarrow> ty \<Rightarrow> nat \<Rightarrow> byte list \<Rightarrow> nat \<Rightarrow> (byte list \<times> nat) result" where
  "zero_fill_pairs A k v 0 output offset = Ok (output, offset)"
| "zero_fill_pairs A k v (Suc n) output offset =
     (let key_end = calculate_value_end_offset A k offset
      in and_then (memset output offset (key_end - offset)) (\<lambda>output.
           let val_end = calculate_value_end_offset A v key_end
           in and_then (memset output key_end (val_end - key_end))
                (\<lambda>output. zero_fill_pairs A k v n output val_end)))"

text \<open>The zero padding in front of a value, and the 4-byte little-endian length or
  message id every serializer writes after it.\<close>

definition write_padding :: "byte list \<Rightarrow> nat \<Rightarrow> nat \<Rightarrow> byte list result" where
  "write_padding output offset padding =
     (if padding > 0 then memset output offset padding else Ok output)"

definition serialize_scalar ::
  "nat \<Rightarrow> ScalarType \<Rightarrow> int \<Rightarrow> byte list \<Rightarrow> nat \<Rightarrow> (byte list \<times> nat) result" where
  "serialize_scalar A st x output offset =
     (let padding = calculate_padding A (sizeof st) offset
      in and_then (write_padding output offset padding) (\<lambda>output.
         and_then (memcpy output (offset + padding) (le_bytes (sizeof st) x)) (\<lambda>output.
         Ok (output, offset + padding + sizeof st))))"

definition serialize_string ::
  "nat \<Rightarrow> nat \<Rightarrow> String \<Rightarrow> byte list \<Rightarrow> nat \<Rightarrow> (byte list \<times> nat) result" where
  "serialize_string A max_size s output offset =
     (let padding = calculate_padding A 4 offset
      in and_then (write_padding output offset padding) (\<lambda>output.
         and_then (memcpy output (offset + padding) (le_bytes 4 (int (current_len s)))) (\<lambda>output.
         and_then (memcpy output (offset + padding + 4) (buffer s)) (\<lambda>output.
         Ok (output, offset + padding + 4 + max_size)))))"

function serialize_value ::
    "nat \<Rightarrow> ty \<Rightarrow> val \<Rightarrow> byte list \<Rightarrow> nat \<Rightarrow> (byte list \<times> nat) result"
  and serialize_fields ::
    "nat \<Rightarrow> fld list \<Rightarrow> fval list \<Rightarrow> byte list \<Rightarrow> nat \<Rightarrow> (byte list \<times> nat) result"
  and serialize_field ::
    "nat \<Rightarrow> fld \<Rightarrow> fval \<Rightarrow> byte list \<Rightarrow> nat \<Rightarrow> (byte list \<times> nat) result"
  and serialize_elements ::
    "nat \<Rightarrow> ty \<Rightarrow> val list \<Rightarrow> byte list \<Rightarrow> nat \<Rightarrow> (byte list \<times> nat) result"
  and serialize_pairs ::
    "nat \<Rightarrow> ty \<Rightarrow> ty \<Rightarrow> (val \<times> val) list \<Rightarrow> byte list \<Rightarrow> nat \<Rightarrow> (byte list \<times> nat) result"
where
  "serialize_value A (TScalar st vs) x output offset =
     (case x of VScalar n \<Rightarrow> serialize_scalar A st n output offset | _ \<Rightarrow> Undefined)"
| "serialize_value A (TString n vs) x output offset =
     (case x of VString s \<Rightarrow> serialize_string A n s output offset | _ \<Rightarrow> Undefined)"
| "serialize_value A (TMessage mid flds hook) x output offset =
     (case x of
        VMessage fvs \<Rightarrow>
          (let padding = calculate_padding A A offset
           in and_then (write_padding output offset padding) (\<lambda>output.
              and_then (memcpy output (offset + padding) (le_bytes 4 (uint mid))) (\<lambda>output.
              serialize_fields A flds fvs output (offset + padding + 4))))
      | _ \<Rightarrow> Undefined)"
| "serialize_value A (TArrayField i t n vs) x output offset =
     (case x of
        VArrayField items len \<Rightarrow>
          (let padding = calculate_padding A 4 offset
           in and_then (write_padding output offset padding) (\<lambda>output.
              and_then (memcpy output (offset + padding) (le_bytes 4 (int len))) (\<lambda>output.
              and_then (serialize_elements A t (take len items) output (offset + padding + 4))
                (\<lambda>(output, offset). zero_fill_slots A t (n - len) output offset))))
      | _ \<Rightarrow> Undefined)"
| "serialize_value A (TMapField i k v n vs) x output offset =
     (case x of
        VMapField items len \<Rightarrow>
          (let padding = calculate_padding A 4 offset
           in and_then (write_padding output offset padding) (\<lambda>output.
              and_then (memcpy output (offset + padding) (le_bytes 4 (int len))) (\<lambda>output.
              and_then (serialize_pairs A k v (take len items) output (offset + padding + 4))
                (\<lambda>(output, offset). zero_fill_pairs A k v (n - len) output offset))))
      | _ \<Rightarrow> Undefined)"
| "serialize_fields A [] [] output offset = Ok (output, offset)"
| "serialize_fields A (f # fs) (x # xs) output offset =
     and_then (serialize_field A f x output offset)
       (\<lambda>(output, offset). serialize_fields A fs xs output offset)"
| "serialize_fields A [] (x # xs) output offset = Undefined"
| "serialize_fields A (f # fs) [] output offset = Undefined"
| "serialize_field A (Field i p t) x output offset =
     (case x of
        FieldV v is_set \<Rightarrow>
          and_then (memcpy output offset [if is_set then 1 else 0]) (\<lambda>output.
            if is_set then serialize_value A t v output (offset + 1)
            else
              (let end_offset = calculate_value_end_offset A t (offset + 1)
               in and_then (memset output (offset + 1) (end_offset - (offset + 1)))
                    (\<lambda>output. Ok (output, end_offset))))
      | _ \<Rightarrow> Undefined)"
| "serialize_field A (Member t) x output offset =
     (case x of MemberV v \<Rightarrow> serialize_value A t v output offset | _ \<Rightarrow> Undefined)"
| "serialize_elements A t [] output offset = Ok (output, offset)"
| "serialize_elements A t (x # xs) output offset =
     and_then (serialize_value A t x output offset)
       (\<lambda>(output, offset). serialize_elements A t xs output offset)"
| "serialize_pairs A k v [] output offset = Ok (output, offset)"
| "serialize_pairs A k v (p # ps) output offset =
     and_then (serialize_value A k (fst p) output offset) (\<lambda>(output, offset).
     and_then (serialize_value A v (snd p) output offset) (\<lambda>(output, offset).
     serialize_pairs A k v ps output offset))"
  by pat_completeness auto
termination
  by (relation "inv_image (less_than <*lex*> less_than <*lex*> less_than)
        (case_sum
          (case_sum (\<lambda>(A, t, x, output, offset). (size t, 1, 0))
                    (\<lambda>(A, fs, xs, output, offset). (size_list size fs, 0, 0)))
          (case_sum (\<lambda>(A, f, x, output, offset). (size f, 0, 0))
            (case_sum (\<lambda>(A, t, xs, output, offset). (size t, 2, length xs))
                      (\<lambda>(A, k, v, ps, output, offset). (size k + size v + 1, 0, length ps)))))")
     auto


definition StaticLayout_GetFormat :: "nat \<Rightarrow> Format" where
  "StaticLayout_GetFormat A = (if A = 1 then Packed else if A = 4 then Aligned4 else Aligned8)"

fun StaticLayout_Size :: "nat \<Rightarrow> ty \<Rightarrow> nat" where
  "StaticLayout_Size A (TMessage mid flds hook) =
     PayloadStartOffset A + 4 + calculate_fields_end_offset A flds 0"
| "StaticLayout_Size A t = 0"

fun StaticLayout_Serialize :: "nat \<Rightarrow> ty \<Rightarrow> val \<Rightarrow> byte list \<Rightarrow> (byte list \<times> nat) result" where
  "StaticLayout_Serialize A (TMessage mid flds hook) (VMessage fvs) output =
     and_then (if PayloadStartOffset A > StandardHeaderSize
               then memset output StandardHeaderSize (PayloadStartOffset A - StandardHeaderSize)
               else Ok output) (\<lambda>output.
     and_then (memcpy output (PayloadStartOffset A) (le_bytes 4 (uint mid))) (\<lambda>output.
     serialize_fields A flds fvs output (PayloadStartOffset A + 4)))"
| "StaticLayout_Serialize A t v output = Undefined"

definition deserialize_scalar ::
  "nat \<Rightarrow> ScalarType \<Rightarrow> int \<Rightarrow> bool \<Rightarrow> byte list \<Rightarrow> nat \<Rightarrow> (val \<times> nat) result" where
  "deserialize_scalar A st x is_set input offset =
     (let offset = offset + calculate_padding A (sizeof st) offset
      in if is_set then
           and_then (read_bytes input offset (sizeof st))
             (\<lambda>bs. Ok (VScalar (le_value st bs), offset + sizeof st))
         else Ok (VScalar x, offset + sizeof st))"

definition deserialize_string ::
  "nat \<Rightarrow> nat \<Rightarrow> String \<Rightarrow> bool \<Rightarrow> byte list \<Rightarrow> nat \<Rightarrow> (val \<times> nat) result" where
  "deserialize_string A max_size s is_set input offset =
     (let offset = offset + calculate_padding A 4 offset
      in and_then (read_bytes input offset 4) (\<lambda>le_len.
           let offset = offset + 4; len = nat (le_uint le_len)
           in if is_set then
                if len > max_size then
                  Err (Error_capacity_exceeded 0 ''deserialized string too long'')
                else
                  and_then (read_bytes input offset max_size) (\<lambda>bs.
                    Ok (VString \<lparr>buffer = bs, current_len = len\<rparr>, offset + max_size))
              else Ok (VString (String_clear s), offset + max_size)))"

function deserialize_value ::
    "nat \<Rightarrow> ty \<Rightarrow> val \<Rightarrow> bool \<Rightarrow> byte list \<Rightarrow> nat \<Rightarrow> (val \<times> nat) result"
  and deserialize_fields ::
    "nat \<Rightarrow> fld list \<Rightarrow> fval list \<Rightarrow> byte list \<Rightarrow> nat \<Rightarrow> (fval list \<times> nat) result"
  and deserialize_field ::
    "nat \<Rightarrow> fld \<Rightarrow> fval \<Rightarrow> byte list \<Rightarrow> nat \<Rightarrow> (fval \<times> nat) result"
  and deserialize_elements ::
    "nat \<Rightarrow> ty \<Rightarrow> val list \<Rightarrow> byte list \<Rightarrow> nat \<Rightarrow> (val list \<times> nat) result"
  and deserialize_pairs ::
    "nat \<Rightarrow> ty \<Rightarrow> ty \<Rightarrow> (val \<times> val) list \<Rightarrow> byte list \<Rightarrow> nat \<Rightarrow> ((val \<times> val) list \<times> nat) result"
where
  "deserialize_value A (TScalar st vs) x is_set input offset =
     (case x of VScalar n \<Rightarrow> deserialize_scalar A st n is_set input offset | _ \<Rightarrow> Undefined)"
| "deserialize_value A (TString n vs) x is_set input offset =
     (case x of VString s \<Rightarrow> deserialize_string A n s is_set input offset | _ \<Rightarrow> Undefined)"
| "deserialize_value A (TMessage mid flds hook) x is_set input offset =
     (case x of
        VMessage fvs \<Rightarrow>
          (let offset = offset + calculate_padding A A offset
           in and_then (read_bytes input offset 4) (\<lambda>bs.
                if is_set \<and> word_of_int (le_uint bs) \<noteq> mid then Err Error_invalid_message_id
                else if is_set then
                  and_then (deserialize_fields A flds fvs input (offset + 4))
                    (\<lambda>(fvs, offset). Ok (VMessage fvs, offset))
                else Ok (VMessage fvs, offset + 4 + calculate_fields_end_offset A flds 0)))
      | _ \<Rightarrow> Undefined)"
| "deserialize_value A (TArrayField i t n vs) x is_set input offset =
     (case x of
        VArrayField items len0 \<Rightarrow>
          (let array_end = calculate_value_end_offset A (TArrayField i t n vs) offset
           in if \<not> is_set then Ok (VArrayField items 0, array_end)
              else
                (let offset = offset + calculate_padding A 4 offset
                 in and_then (read_bytes input offset 4) (\<lambda>le_len.
                      let len = nat (le_uint le_len)
                      in if len > n then
                           Err (Error_capacity_exceeded 0 ''array capacity exceeded'')
                         else
                           and_then (deserialize_elements A t (take len items) input (offset + 4))
                             (\<lambda>(xs, offset). Ok (VArrayField (xs @ drop len items) len, array_end)))))
      | _ \<Rightarrow> Undefined)"
| "deserialize_value A (TMapField i k v n vs) x is_set input offset =
     (case x of
        VMapField items len0 \<Rightarrow>
          (let map_end = calculate_value_end_offset A (TMapField i k v n vs) offset
           in if \<not> is_set then Ok (VMapField items 0, map_end)
              else
                (let offset = offset + calculate_padding A 4 offset
                 in and_then (read_bytes input offset 4) (\<lambda>le_len.
                      let len = nat (le_uint le_len)
                      in if len > n then
                           Err (Error_capacity_exceeded 0 ''map capacity exceeded'')
                         else
                           and_then (deserialize_pairs A k v (take len items) input (offset + 4))
                             (\<lambda>(ps, offset). Ok (VMapField (ps @ drop len items) len, map_end)))))
      | _ \<Rightarrow> Undefined)"
| "deserialize_fields A [] [] input offset = Ok ([], offset)"
| "deserialize_fields A (f # fs) (x # xs) input offset =
     and_then (deserialize_field A f x input offset) (\<lambda>(x, offset).
     and_then (deserialize_fields A fs xs input offset) (\<lambda>(xs, offset).
     Ok (x # xs, offset)))"
| "deserialize_fields A [] (x # xs) input offset = Undefined"
| "deserialize_fields A (f # fs) [] input offset = Undefined"
| "deserialize_field A (Field i p t) x input offset =
     (case x of
        FieldV v is_set0 \<Rightarrow>
          and_then (read_bytes input offset 1) (\<lambda>bs.
            let is_set = (bs \<noteq> [0])
            in and_then (deserialize_value A t v is_set input (offset + 1))
                 (\<lambda>(v, offset). Ok (FieldV v is_set, offset)))
      | _ \<Rightarrow> Undefined)"
| "deserialize_field A (Member t) x input offset =
     (case x of
        MemberV v \<Rightarrow>
          and_then (deserialize_value A t v True input offset)
            (\<lambda>(v, offset). Ok (MemberV v, offset))
      | _ \<Rightarrow> Undefined)"
| "deserialize_elements A t [] input offset = Ok ([], offset)"
| "deserialize_elements A t (x # xs) input offset =
     and_then (deserialize_value A t x True input offset) (\<lambda>(x, offset).
     and_then (deserialize_elements A t xs input offset) (\<lambda>(xs, offset).
     Ok (x # xs, offset)))"
| "deserialize_pairs A k v [] input offset = Ok ([], offset)"
| "deserialize_pairs A k v (p # ps) input offset =
     and_then (deserialize_value A k (fst p) True input offset) (\<lambda>(key, offset).
     and_then (deserialize_value A v (snd p) True input offset) (\<lambda>(value, offset).
     and_then (deserialize_pairs A k v ps input offset) (\<lambda>(ps, offset).
     Ok ((key, value) # ps, offset))))"
  by pat_completeness auto
termination
  by (relation "inv_image (less_than <*lex*> less_than <*lex*> less_than)
        (case_sum
          (case_sum (\<lambda>(A, t, x, is_set, input, offset). (size t, 1, 0))
                    (\<lambda>(A, fs, xs, input, offset). (size_list size fs, 0, 0)))
          (case_sum (\<lambda>(A, f, x, input, offset). (size f, 0, 0))
            (case_sum (\<lambda>(A, t, xs, input, offset). (size t, 2, length xs))
                      (\<lambda>(A, k, v, ps, input, offset). (size k + size v + 1, 0, length ps)))))")
     auto

fun StaticLayout_Deserialize :: "nat \<Rightarrow> ty \<Rightarrow> byte list \<Rightarrow> val \<Rightarrow> val result" where
  "StaticLayout_Deserialize A (TMessage mid flds hook) input (VMessage fvs) =
     and_then (read_bytes input (PayloadStartOffset A) 4) (\<lambda>bs.
       if word_of_int (le_uint bs) \<noteq> mid then Err Error_invalid_message_id
       else and_then (deserialize_fields A flds fvs input (PayloadStartOffset A + 4))
              (\<lambda>(fvs, offset). Ok (VMessage fvs)))"
| "StaticLayout_Deserialize A t input v = Undefined"


text \<open>The serdes policies of the static layout.\<close>

record SerdesPolicy =
  Serdes_Size :: "ty \<Rightarrow> nat"
  Serdes_GetFormat :: Format
  Serdes_Serialize :: "ty \<Rightarrow> val \<Rightarrow> byte list \<Rightarrow> (byte list \<times> nat) result"
  Serdes_Deserialize :: "ty \<Rightarrow> byte list \<Rightarrow> val \<Rightarrow> val result"

definition StaticLayout :: "nat \<Rightarrow> SerdesPolicy" where
  "StaticLayout A =
     \<lparr>Serdes_Size = StaticLayout_Size A,
      Serdes_GetFormat = StaticLayout_GetFormat A,
      Serdes_Serialize = StaticLayout_Serialize A,
      Serdes_Deserialize = StaticLayout_Deserialize A\<rparr>"

definition PackedLayout :: SerdesPolicy where "PackedLayout = StaticLayout 1"
definition Aligned32Layout :: SerdesPolicy where "Aligned32Layout = StaticLayout 4"
definition Aligned64Layout :: SerdesPolicy where "Aligned64Layout = StaticLayout 8"

section \<open>Equality of field values (the \<open>operator==\<close> of each kind)\<close>

text \<open>Scalars compare their values, strings their views, fields their set flags and,
  when set, their values, arrays their lengths and active prefixes, maps their lengths
  and, for every active pair, \<open>has_entry\<close> in the other map; a message compares member by
  member (its defaulted \<open>operator==\<close>).\<close>

fun val_eq :: "ty \<Rightarrow> val \<Rightarrow> val \<Rightarrow> bool"
  and fvals_eq :: "fld list \<Rightarrow> fval list \<Rightarrow> fval list \<Rightarrow> bool"
  and fval_eq :: "fld \<Rightarrow> fval \<Rightarrow> fval \<Rightarrow> bool" where
  "val_eq (TScalar st vs) a b =
     (case (a, b) of (VScalar x, VScalar y) \<Rightarrow> x = y | _ \<Rightarrow> False)"
| "val_eq (TString n vs) a b =
     (case (a, b) of (VString x, VString y) \<Rightarrow> String_get x = String_get y | _ \<Rightarrow> False)"
| "val_eq (TMessage mid flds hook) a b =
     (case (a, b) of (VMessage xs, VMessage ys) \<Rightarrow> fvals_eq flds xs ys | _ \<Rightarrow> False)"
| "val_eq (TArrayField i t n vs) a b =
     (case (a, b) of
        (VArrayField xs lx, VArrayField ys ly) \<Rightarrow>
          lx = ly \<and> list_all2 (\<lambda>x y. val_eq t x y) (take lx xs) (take lx ys)
      | _ \<Rightarrow> False)"
| "val_eq (TMapField i k v n vs) a b =
     (case (a, b) of
        (VMapField xs lx, VMapField ys ly) \<Rightarrow>
          lx = ly \<and>
          list_all (\<lambda>p. case find (\<lambda>q. val_eq k (fst q) (fst p)) (take ly ys) of
                          None \<Rightarrow> False
                        | Some q \<Rightarrow> val_eq v (snd q) (snd p))
                   (take lx xs)
      | _ \<Rightarrow> False)"
| "fvals_eq [] xs ys = (xs = [] \<and> ys = [])"
| "fvals_eq (f # fs) xs ys =
     (case (xs, ys) of
        (x # xs', y # ys') \<Rightarrow> fval_eq f x y \<and> fvals_eq fs xs' ys'
      | _ \<Rightarrow> False)"
| "fval_eq (Field i p t) a b =
     (case (a, b) of
        (FieldV x set_x, FieldV y set_y) \<Rightarrow>
          (if set_x \<noteq> set_y then False else if \<not> set_x then True else val_eq t x y)
      | _ \<Rightarrow> False)"
| "fval_eq (Member t) a b =
     (case (a, b) of (MemberV x, MemberV y) \<Rightarrow> val_eq t x y | _ \<Rightarrow> False)"

section \<open>Header (core/crunch\_header.hpp)\<close>

record CrunchHeader =
  header_version :: byte
  header_format :: byte
  header_message_id :: MessageId

fun message_id_of :: "ty \<Rightarrow> MessageId" where
  "message_id_of (TMessage mid flds hook) = mid"
| "message_id_of t = 0"

definition GetHeader :: "byte list \<Rightarrow> Error + CrunchHeader" where
  "GetHeader input =
     (if length input < StandardHeaderSize then
        Inl (Error_deserialization ''buffer too small for header'')
      else
        Inr \<lparr>header_version = input ! 0,
             header_format = input ! 1,
             header_message_id = word_of_int (le_uint (take 4 (drop 2 input)))\<rparr>)"

definition WriteHeader :: "ty \<Rightarrow> SerdesPolicy \<Rightarrow> byte list \<Rightarrow> byte list result" where
  "WriteHeader Message Serdes output =
     and_then (memcpy output 0 [CrunchVersion]) (\<lambda>output.
     and_then (memcpy output 1 [Format_byte (Serdes_GetFormat Serdes)]) (\<lambda>output.
     memcpy output 2 (le_bytes 4 (uint (message_id_of Message)))))"

definition ValidateHeader :: "ty \<Rightarrow> SerdesPolicy \<Rightarrow> byte list \<Rightarrow> Error + nat" where
  "ValidateHeader Message Serdes input =
     (case GetHeader input of
        Inl err \<Rightarrow> Inl err
      | Inr header \<Rightarrow>
          if header_version header \<noteq> CrunchVersion then
            Inl (Error_deserialization ''unsupported crunch version'')
          else if header_format header \<noteq> Format_byte (Serdes_GetFormat Serdes) then
            Inl Error_invalid_format
          else if header_message_id header \<noteq> message_id_of Message then
            Inl Error_invalid_message_id
          else Inr StandardHeaderSize)"

section \<open>Buffer and the top-level calls (crunch\_detail.hpp, crunch.hpp)\<close>

record Buffer =
  data :: "byte list"
  used_bytes :: nat

definition GetBufferSize :: "ty \<Rightarrow> Integrity \<Rightarrow> SerdesPolicy \<Rightarrow> nat" where
  "GetBufferSize Message integrity Serdes = Serdes_Size Serdes Message + Integrity_size integrity"

definition GetBuffer :: "ty \<Rightarrow> Integrity \<Rightarrow> SerdesPolicy \<Rightarrow> Buffer" where
  "GetBuffer Message integrity Serdes =
     \<lparr>data = replicate (GetBufferSize Message integrity Serdes) 0, used_bytes = 0\<rparr>"

definition serialized_message_span :: "Buffer \<Rightarrow> byte list" where
  "serialized_message_span b = take (used_bytes b) (data b)"

definition SerializeWithoutValidation ::
  "Integrity \<Rightarrow> SerdesPolicy \<Rightarrow> ty \<Rightarrow> byte list \<Rightarrow> val \<Rightarrow> (byte list \<times> nat) result" where
  "SerializeWithoutValidation integrity Serdes Message buf msg =
     (let ChecksumSize = Integrity_size integrity;
          PayloadSize = length buf - ChecksumSize
      in and_then (WriteHeader Message Serdes (take PayloadSize buf)) (\<lambda>payload_span.
         and_then (Serdes_Serialize Serdes Message msg payload_span) (\<lambda>(payload_span, bytes_written).
           let buf = payload_span @ drop PayloadSize buf
           in if ChecksumSize > 0 then
                if bytes_written > PayloadSize then Undefined
                else
                  (let checksum = Integrity_calculate integrity (take bytes_written buf)
                   in and_then (memcpy buf bytes_written checksum)
                        (\<lambda>buf. Ok (buf, bytes_written + ChecksumSize)))
              else Ok (buf, bytes_written + ChecksumSize))))"

definition detail_Serialize ::
  "Integrity \<Rightarrow> SerdesPolicy \<Rightarrow> ty \<Rightarrow> byte list \<Rightarrow> val \<Rightarrow> (byte list \<times> nat) result" where
  "detail_Serialize integrity Serdes Message buf msg =
     (case Validate Message msg of
        Some err \<Rightarrow> Err err
      | None \<Rightarrow> SerializeWithoutValidation integrity Serdes Message buf msg)"

definition Serialize :: "Integrity \<Rightarrow> SerdesPolicy \<Rightarrow> ty \<Rightarrow> Buffer \<Rightarrow> val \<Rightarrow> Buffer result" where
  "Serialize integrity Serdes Message b msg =
     and_then (detail_Serialize integrity Serdes Message (data b) msg)
       (\<lambda>(d, n). Ok \<lparr>data = d, used_bytes = n\<rparr>)"

definition detail_Deserialize ::
  "Integrity \<Rightarrow> SerdesPolicy \<Rightarrow> ty \<Rightarrow> byte list \<Rightarrow> val \<Rightarrow> val result" where
  "detail_Deserialize integrity Serdes Message buf msg =
     (let ChecksumSize = Integrity_size integrity
      in if length buf < ChecksumSize then
           Err (Error_deserialization ''buffer too small for checksum'')
         else
           (let PayloadSize = length buf - ChecksumSize;
                payload_span = take PayloadSize buf
            in if ChecksumSize > 0 \<and>
                  Integrity_calculate integrity payload_span \<noteq> drop PayloadSize buf
               then Err Error_integrity
               else
                 (case ValidateHeader Message Serdes payload_span of
                    Inl err \<Rightarrow> Err err
                  | Inr header_size \<Rightarrow>
                      and_then (Serdes_Deserialize Serdes Message payload_span msg) (\<lambda>msg.
                        case Validate Message msg of
                          Some err \<Rightarrow> Err err
                        | None \<Rightarrow> Ok msg))))"

definition Deserialize :: "Integrity \<Rightarrow> SerdesPolicy \<Rightarrow> ty \<Rightarrow> Buffer \<Rightarrow> val \<Rightarrow> val result" where
  "Deserialize integrity Serdes Message b out_message =
     detail_Deserialize integrity Serdes Message (serialized_message_span b) out_message"

section \<open>Decoder (crunch\_detail.hpp)\<close>

text \<open>The variant holds the index of its alternative and the message. \<open>Decode\<close> returns
  the optional error together with the variant afterwards.\<close>

type_synonym VariantType = "nat \<times> val"

fun Decode_dispatch ::
  "SerdesPolicy \<Rightarrow> Integrity \<Rightarrow> ty list \<Rightarrow> nat \<Rightarrow> MessageId \<Rightarrow> byte list \<Rightarrow> VariantType \<Rightarrow>
   (Error option \<times> VariantType) result" where
  "Decode_dispatch Serdes integrity [] idx mid buf out_message =
     Ok (Some Error_invalid_message_id, out_message)"
| "Decode_dispatch Serdes integrity (M # Ms) idx mid buf out_message =
     (if message_id_of M = mid then
        (case detail_Deserialize integrity Serdes M buf (default_val M) of
           Err err \<Rightarrow> Ok (Some err, out_message)
         | Ok msg \<Rightarrow> Ok (None, (idx, msg))
         | Undefined \<Rightarrow> Undefined)
      else Decode_dispatch Serdes integrity Ms (Suc idx) mid buf out_message)"

definition Decode ::
  "SerdesPolicy \<Rightarrow> Integrity \<Rightarrow> ty list \<Rightarrow> byte list \<Rightarrow> VariantType \<Rightarrow>
   (Error option \<times> VariantType) result" where
  "Decode Serdes integrity Messages buf out_message =
     (case GetHeader buf of
        Inl err \<Rightarrow> Ok (Some err, out_message)
      | Inr header \<Rightarrow>
          Decode_dispatch Serdes integrity Messages 0 (header_message_id header) buf out_message)"

section \<open>Example messages (test/api/test\_e2e.cpp)\<close>

definition no_hook :: "val \<Rightarrow> Error option" where
  "no_hook m = None"

definition MyMessage :: ty where
  "MyMessage = TMessage 0x12345678
     [Field 1 Required (TScalar Int32 [Positive_Check]),
      Field 2 Optional (TScalar Int16 [None_Check])] no_hook"

definition my_message :: val where
  "my_message = VMessage [FieldV (VScalar 42) True, FieldV (VScalar (-15)) True]"



text \<open>A message with one optional \<open>String<4, None>\<close> field.\<close>

definition StringMessage :: ty where
  "StringMessage = TMessage 0xA001 [Field 1 Optional (TString 4 [None_Check])] no_hook"

text \<open>Messages with a submessage field: \<open>InnerMessage\<close> holds one optional \<open>Int8\<close>,
  \<open>OuterMessage\<close> one optional \<open>InnerMessage\<close>; \<open>WideMessage\<close> holds three optional
  \<open>Int8\<close> fields and an optional \<open>InnerMessage\<close>; \<open>ListMessage\<close> holds an array of at
  most one \<open>OuterMessage\<close>, an optional \<open>Int8\<close> and an optional \<open>InnerMessage\<close>.\<close>

definition InnerMessage :: ty where
  "InnerMessage = TMessage 0x2222 [Field 1 Optional (TScalar Int8 [None_Check])] no_hook"

definition OuterMessage :: ty where
  "OuterMessage = TMessage 0x1111 [Field 1 Optional InnerMessage] no_hook"

definition outer_message :: val where
  "outer_message = VMessage [FieldV (VMessage [FieldV (VScalar 7) True]) True]"

definition WideMessage :: ty where
  "WideMessage = TMessage 0x5555
     [Field 1 Optional (TScalar Int8 [None_Check]),
      Field 2 Optional (TScalar Int8 [None_Check]),
      Field 3 Optional (TScalar Int8 [None_Check]),
      Field 4 Optional InnerMessage] no_hook"

definition ListMessage :: ty where
  "ListMessage = TMessage 0x4444
     [Member (TArrayField 1 OuterMessage 1 [None_Check]),
      Field 2 Optional (TScalar Int8 [None_Check]),
      Field 3 Optional InnerMessage] no_hook"

text \<open>A \<open>ListMessage\<close> with one array element (an \<open>OuterMessage\<close> whose field is unset),
  the \<open>Int8\<close> field set to 5 and the \<open>InnerMessage\<close> field set, its \<open>Int8\<close> being 7.\<close>

definition list_message :: val where
  "list_message = VMessage
     [MemberV (VArrayField [VMessage [FieldV (VMessage [FieldV (VScalar 0) False]) False]] 1),
      FieldV (VScalar 5) True,
      FieldV (VMessage [FieldV (VScalar 7) True]) True]"

section \<open>Validators: NullTerminated\<close>

text \<open>C8. For every string the \<open>NullTerminated\<close> validator succeeds precisely when the
  string ends with a zero byte (an empty string has no last byte and fails), and otherwise
  returns the validation error carrying the field id; the result depends on the final
  byte only, so a null byte earlier in the string changes nothing.\<close>

theorem NullTerminated_checks_last_byte:
  "(NullTerminated_Check sv i = None) = (\<exists>pre. sv = pre @ [0])
   \<and> NullTerminated_Check sv i \<in> {None, Some (Error_validation i ''must count null terminator'')}
   \<and> NullTerminated_Check (pre1 @ [b]) i = NullTerminated_Check (pre2 @ [b]) i
   \<and> NullTerminated_Check (0 # pre1 @ [b]) i = NullTerminated_Check [b] i"
proof -
  have "(sv \<noteq> [] \<and> last sv = 0) = (\<exists>pre. sv = pre @ [0])"
    by (cases sv rule: rev_cases) auto
  then show ?thesis
    by (simp add: NullTerminated_Check_def)
qed

section \<open>Integrity: CRC16\<close>

lemma msb_test: "(c AND 0x8000 \<noteq> 0) = bit c 15" for c :: "16 word"
proof -
  have "(0x8000 :: 16 word) = push_bit 15 1" by simp
  then show ?thesis
    by (simp only: and_exp_eq_0_iff_not_bit push_bit_of_1) simp
qed

lemma crc16_round_eq:
  "crc16_round c = push_bit 1 c XOR (if bit c 15 then 0x1021 else 0)"
  by (simp add: crc16_round_def msb_test)

lemma ccitt_bit_eq:
  "ccitt_bit c b = push_bit 1 c XOR (if bit c 15 \<noteq> b then 0x1021 else 0)"
  by (simp add: ccitt_bit_def)

lemma push_bit_xor16: "push_bit 1 (c XOR w) = push_bit 1 c XOR push_bit 1 w" for c w :: "16 word"
  by (rule bit_word_eqI) (simp add: bit_push_bit_iff bit_xor_iff)

lemma crc16_round_xor:
  "crc16_round (c XOR w) = ccitt_bit c (bit w 15) XOR push_bit 1 w"
proof -
  have "crc16_round (c XOR w) =
        (push_bit 1 c XOR push_bit 1 w) XOR (if bit c 15 \<noteq> bit w 15 then 0x1021 else 0)"
    by (simp only: crc16_round_eq push_bit_xor16 bit_xor_iff)
  also have "\<dots> = (push_bit 1 c XOR (if bit c 15 \<noteq> bit w 15 then 0x1021 else 0)) XOR push_bit 1 w"
    by (simp only: xor.assoc xor.commute [of "push_bit 1 w"])
  finally show ?thesis
    by (simp only: ccitt_bit_eq)
qed

lemma crc16_rounds_xor:
  "crc16_rounds n (c XOR w) = foldl ccitt_bit c (top_bits n w) XOR push_bit n w"
proof (induction n arbitrary: c w)
  case 0
  show ?case by simp
next
  case (Suc n)
  have "crc16_rounds (Suc n) (c XOR w) = crc16_rounds n (ccitt_bit c (bit w 15) XOR push_bit 1 w)"
    by (simp add: crc16_round_xor)
  also have "\<dots> = foldl ccitt_bit (ccitt_bit c (bit w 15)) (top_bits n (push_bit 1 w))
                 XOR push_bit n (push_bit 1 w)"
    by (rule Suc.IH)
  finally show ?case by simp
qed

lemma top_bits_map: "n \<le> 16 \<Longrightarrow> top_bits n w = map (\<lambda>i. bit w (15 - i)) [0..<n]"
proof (induction n arbitrary: w)
  case 0
  show ?case by simp
next
  case (Suc n)
  have "map (\<lambda>i. bit (push_bit 1 w) (15 - i)) [0..<n] = map (\<lambda>i. bit w (15 - Suc i)) [0..<n]"
  proof (intro map_cong refl)
    fix i assume "i \<in> set [0..<n]"
    then have "15 - i = Suc (14 - i)" using Suc.prems by auto
    then show "bit (push_bit 1 w) (15 - i) = bit w (15 - Suc i)"
      by (simp only: bit_push_bit_iff) auto
  qed
  with Suc show ?case
    by (simp add: map_upt_Suc del: upt_Suc)
qed

lemma bits_msb_first_map: "bits_msb_first b = map (\<lambda>i. bit b (7 - i)) [0..<8]"
  by (simp add: bits_msb_first_def upt_rec)

lemma top_bits_byte: "top_bits 8 (push_bit 8 (ucast b)) = bits_msb_first b" for b :: byte
  unfolding bits_msb_first_map
  by (subst top_bits_map, simp, intro map_cong refl) (auto simp add: bit_push_bit_iff bit_ucast_iff)

lemma byte_shifted_out: "push_bit 8 (push_bit 8 (ucast b) :: 16 word) = 0" for b :: byte
  by (rule bit_word_eqI) (simp add: bit_simps)

lemma crc16_byte_bits: "crc16_byte c b = foldl ccitt_bit c (bits_msb_first b)"
  by (simp add: crc16_byte_def crc16_rounds_xor top_bits_byte byte_shifted_out)

lemma crc16_register_bits:
  "foldl crc16_byte r bs = foldl ccitt_bit r (concat (map bits_msb_first bs))"
  by (induction bs arbitrary: r) (simp_all add: crc16_byte_bits)

lemma low_byte: "(ucast (w AND 0xFF) :: byte) = ucast w" for w :: "16 word"
proof -
  have eq: "(0xFF :: 16 word) = mask 8" by (simp add: mask_eq_exp_minus_1)
  show ?thesis unfolding eq
    by (rule bit_word_eqI) (auto simp add: bit_simps)
qed

lemma crc16_rounds_8:
  "crc16_rounds 8 c =
     crc16_round (crc16_round (crc16_round (crc16_round
       (crc16_round (crc16_round (crc16_round (crc16_round c)))))))"
  by (simp add: eval_nat_numeral)

text \<open>C9. \<open>CRC16::calculate\<close> is CRC-16-CCITT: on every input it returns the two bytes,
  high byte first, of the register that the bit-serial division by 0x1021 leaves when it
  starts from 0xFFFF, takes each byte most significant bit first and applies no final
  XOR; on the ASCII bytes of "123456789" these are 0x29 0xB1.\<close>

theorem CRC16_calculate_is_ccitt:
  "CRC16_calculate bs = CCITT_spec bs
   \<and> CRC16_calculate (map of_char ''123456789'') = [0x29, 0xB1]"
proof
  show "CRC16_calculate bs = CCITT_spec bs"
    by (simp add: CRC16_calculate_def CCITT_spec_def CRC16_register_def crc16_register_bits
        low_byte Let_def)
  have ascii: "map of_char ''123456789'' =
      [0x31, 0x32, 0x33, 0x34, 0x35, 0x36, 0x37, 0x38, 0x39 :: byte]"
    by simp
  show "CRC16_calculate (map of_char ''123456789'') = [0x29, 0xB1]"
    unfolding ascii
    by (simp add: CRC16_calculate_def CRC16_register_def crc16_byte_def crc16_round_def
        crc16_rounds_8)
qed

section \<open>Varint decoding\<close>

declare decode_loop.simps [simp del]

lemma decode_loop_None_iff:
  "k \<le> 10 \<Longrightarrow>
   (decode_loop input offset v (7 * k) k = None) =
   (\<forall>j. k \<le> j \<and> j < 10 \<and> offset + j < length input \<longrightarrow> input ! (offset + j) AND 0x80 \<noteq> 0)"
proof (induction "10 - k" arbitrary: k v)
  case 0
  then have k: "k = 10" by simp
  show ?case unfolding k
    by (subst decode_loop.simps) (auto simp add: Let_def)
next
  case (Suc n)
  then have k: "k < 10" and n: "n = 10 - Suc k" by simp_all
  have step: "7 * k + 7 = 7 * Suc k" by simp
  show ?case
  proof (cases "offset + k < length input")
    case False
    then show ?thesis
      by (subst decode_loop.simps) auto
  next
    case True
    show ?thesis
    proof (cases "input ! (offset + k) AND 0x80 = 0")
      case z: True
      with True k show ?thesis
        by (subst decode_loop.simps) (auto simp add: Let_def)
    next
      case nz: False
      have "(decode_loop input offset v (7 * k) k = None) =
            (decode_loop input offset (v OR push_bit (7 * k) (ucast (input ! (offset + k) AND 0x7F)))
               (7 * k + 7) (Suc k) = None)"
        using True k nz by (subst decode_loop.simps) (simp add: Let_def)
      also have "\<dots> =
            (decode_loop input offset (v OR push_bit (7 * k) (ucast (input ! (offset + k) AND 0x7F)))
               (7 * Suc k) (Suc k) = None)"
        by (simp only: step)
      also have "\<dots> = (\<forall>j. Suc k \<le> j \<and> j < 10 \<and> offset + j < length input
                         \<longrightarrow> input ! (offset + j) AND 0x80 \<noteq> 0)"
        using Suc.hyps(1)[OF n] k by simp
      also have "\<dots> = (\<forall>j. k \<le> j \<and> j < 10 \<and> offset + j < length input
                         \<longrightarrow> input ! (offset + j) AND 0x80 \<noteq> 0)"
        using nz by (metis Suc_leD Suc_leI le_neq_implies_less)
      finally show ?thesis .
    qed
  qed
qed

text \<open>What \<open>Varint::decode\<close> does reject: it fails exactly when none of the first ten
  bytes from the offset that the input still holds is free of the continuation bit, that
  is, on a continuation bit in the tenth byte or on an input exhausted before a final
  byte. The payload bits of the tenth byte play no part.\<close>

lemma Varint_decode_None_iff:
  "(Varint_decode input offset = None) =
   (\<forall>j. j < 10 \<and> offset + j < length input \<longrightarrow> input ! (offset + j) AND 0x80 \<noteq> 0)"
  using decode_loop_None_iff [of 0 input offset 0] by (simp add: Varint_decode_def)

text \<open>C4. \<open>Varint::decode\<close> is claimed to reject every input whose encoded value does not
  fit in 64 bits. The ten bytes 0x80 (nine times), 0x02 encode 2 ^ 64, and \<open>decode\<close>
  returns the value 0 with ten bytes consumed: the shift by 63 drops the second payload
  bit of the tenth byte.\<close>

theorem Varint_decode_truncates_tenth_byte:
  "leb128_value [0x80, 0x80, 0x80, 0x80, 0x80, 0x80, 0x80, 0x80, 0x80, 0x02] = 2 ^ 64
   \<and> Varint_decode [0x80, 0x80, 0x80, 0x80, 0x80, 0x80, 0x80, 0x80, 0x80, 0x02] 0 = Some (0, 10)"
  by (simp add: Varint_decode_def decode_loop.simps)


section \<open>Integrity: single-bit corruption\<close>

lemma and_then_Ok_iff: "(and_then m f = Ok y) = (\<exists>x. m = Ok x \<and> f x = Ok y)"
  by (cases m) auto

lemma memcpy_Ok_iff:
  "(memcpy output offset src = Ok out') =
   (offset + length src \<le> length output \<and>
    out' = take offset output @ src @ drop (offset + length src) output)"
  by (auto simp add: memcpy_def)

lemma Integrity_calculate_length: "length (Integrity_calculate integrity bs) = Integrity_size integrity"
  by (cases integrity) (simp_all add: CRC16_calculate_def Parity_calculate_def Let_def)

text \<open>What a successful \<open>Serialize\<close> with a checksum leaves in the used prefix.\<close>

lemma Serialize_span:
  assumes "Serialize integrity Serdes Message b msg = Ok b'"
    and "Integrity_size integrity > 0"
  shows "\<exists>body. serialized_message_span b' = body @ Integrity_calculate integrity body
               \<and> used_bytes b' = length body + Integrity_size integrity
               \<and> used_bytes b' \<le> length (data b')"
proof -
  from assms(1) obtain d n where
    dn: "detail_Serialize integrity Serdes Message (data b) msg = Ok (d, n)"
    and b': "b' = \<lparr>data = d, used_bytes = n\<rparr>"
    by (auto simp add: Serialize_def and_then_Ok_iff)
  from dn have sw: "SerializeWithoutValidation integrity Serdes Message (data b) msg = Ok (d, n)"
    by (simp add: detail_Serialize_def split: option.splits)
  let ?cs = "Integrity_size integrity"
  let ?ps = "length (data b) - ?cs"
  from sw assms(2) obtain p bw where
    n: "n = bw + ?cs"
    and mc: "memcpy (p @ drop ?ps (data b)) bw
               (Integrity_calculate integrity (take bw (p @ drop ?ps (data b)))) = Ok d"
    by (auto simp add: SerializeWithoutValidation_def Let_def and_then_Ok_iff split: if_splits)
  define body where "body = take bw (p @ drop ?ps (data b))"
  from mc have le: "bw + ?cs \<le> length (p @ drop ?ps (data b))"
    and d: "d = body @ Integrity_calculate integrity body @ drop (bw + ?cs) (p @ drop ?ps (data b))"
    unfolding body_def by (simp_all add: memcpy_Ok_iff Integrity_calculate_length)
  from le have len: "length body = bw"
    unfolding body_def by simp
  have "take n d = body @ Integrity_calculate integrity body"
    unfolding d n by (simp add: len Integrity_calculate_length)
  then have 1: "serialized_message_span b' = body @ Integrity_calculate integrity body"
    unfolding b' serialized_message_span_def by simp
  have 2: "used_bytes b' = length body + ?cs"
    unfolding b' by (simp add: n len)
  have "length d = length (p @ drop ?ps (data b))"
    using le unfolding d by (simp add: len Integrity_calculate_length)
  with le have 3: "used_bytes b' \<le> length (data b')"
    unfolding b' by (simp add: n)
  from 1 2 3 show ?thesis by blast
qed

subsection \<open>Single-bit flips\<close>

lemma flip_bit_byte_neq: "i < 8 \<Longrightarrow> flip_bit i b \<noteq> b" for b :: byte
proof
  assume i: "i < 8" and eq: "flip_bit i b = b"
  have "bit (flip_bit i b) i = (\<not> bit b i)"
    using i by (simp add: bit_flip_bit_iff)
  with eq show False by simp
qed

lemma flip_bit_byte_xor: "flip_bit i b = b XOR push_bit i 1" for b :: byte
  by (simp add: flip_bit_eq_xor)

lemma push_bit_1_byte_neq_0: "i < 8 \<Longrightarrow> (push_bit i 1 :: byte) \<noteq> 0"
  using flip_bit_byte_neq [of i 0] by (simp only: flip_bit_byte_xor xor.left_neutral) simp

subsection \<open>Parity\<close>

lemma parity_fold: "foldl (XOR) a bs = a XOR foldl (XOR) 0 bs" for a :: byte
proof (induction bs arbitrary: a)
  case Nil
  show ?case by simp
next
  case (Cons b bs)
  have "foldl (XOR) a (b # bs) = foldl (XOR) (a XOR b) bs" by simp
  also have "\<dots> = (a XOR b) XOR foldl (XOR) 0 bs" by (rule Cons.IH)
  also have "\<dots> = a XOR (b XOR foldl (XOR) 0 bs)" by (simp only: xor.assoc)
  also have "b XOR foldl (XOR) 0 bs = foldl (XOR) b bs" by (rule Cons.IH [symmetric])
  finally show ?case by simp
qed

lemma parity_update:
  "j < length bs \<Longrightarrow> foldl (XOR) 0 (bs[j := bs ! j XOR e]) = foldl (XOR) 0 bs XOR e" for e :: byte
proof (induction bs arbitrary: j)
  case Nil
  then show ?case by simp
next
  case (Cons b bs)
  show ?case
  proof (cases j)
    case 0
    have "foldl (XOR) 0 ((b # bs)[0 := (b # bs) ! 0 XOR e]) = foldl (XOR) (b XOR e) bs" by simp
    also have "\<dots> = (b XOR e) XOR foldl (XOR) 0 bs" by (rule parity_fold)
    also have "\<dots> = (b XOR foldl (XOR) 0 bs) XOR e"
      by (simp only: xor.assoc xor.commute [of e])
    also have "b XOR foldl (XOR) 0 bs = foldl (XOR) 0 (b # bs)"
      using parity_fold [of b bs] by simp
    finally show ?thesis using 0 by simp
  next
    case (Suc k)
    with Cons.prems have k: "k < length bs" by simp
    have "foldl (XOR) 0 ((b # bs)[Suc k := (b # bs) ! Suc k XOR e]) = foldl (XOR) b (bs[k := bs ! k XOR e])"
      by simp
    also have "\<dots> = b XOR foldl (XOR) 0 (bs[k := bs ! k XOR e])" by (rule parity_fold)
    also have "\<dots> = b XOR (foldl (XOR) 0 bs XOR e)" by (simp only: Cons.IH [OF k])
    also have "\<dots> = (b XOR foldl (XOR) 0 bs) XOR e" by (simp only: xor.assoc)
    also have "b XOR foldl (XOR) 0 bs = foldl (XOR) 0 (b # bs)"
      using parity_fold [of b bs] by simp
    finally show ?thesis using Suc by simp
  qed
qed

lemma Parity_detects:
  assumes "j < length bs" "i < 8"
  shows "Parity_calculate (bs[j := flip_bit i (bs ! j)]) \<noteq> Parity_calculate bs"
proof
  assume "Parity_calculate (bs[j := flip_bit i (bs ! j)]) = Parity_calculate bs"
  then have "foldl (XOR) 0 bs XOR push_bit i 1 = foldl (XOR) 0 bs"
    using assms(1) by (simp add: Parity_calculate_def flip_bit_byte_xor parity_update)
  then have "(foldl (XOR) 0 bs XOR foldl (XOR) 0 bs) XOR push_bit i 1 = foldl (XOR) 0 bs XOR foldl (XOR) 0 bs"
    by (metis xor.assoc xor.commute)
  then have "(push_bit i 1 :: byte) = 0" by simp
  with push_bit_1_byte_neq_0 [OF assms(2)] show False by simp
qed


subsection \<open>CRC16\<close>

lemma xor_eq_self_iff: "(x XOR y = x) = (y = 0)" for x y :: "'a::len word"
proof
  assume "x XOR y = x"
  then have "x XOR (x XOR y) = x XOR x" by simp
  then show "y = 0" by (simp flip: xor.assoc)
qed simp

lemma xor_cancel_right: "(a XOR p) XOR p = a" for a p :: "'a::len word"
  by (simp add: xor.assoc)

lemma crc16_round_linear: "crc16_round (x XOR y) = crc16_round x XOR crc16_round y"
proof -
  have "crc16_round (x XOR y) = ccitt_bit x (bit y 15) XOR push_bit 1 y"
    by (rule crc16_round_xor)
  also have "ccitt_bit x (bit y 15) = crc16_round x XOR (if bit y 15 then 0x1021 else 0)"
    by (cases "bit x 15"; cases "bit y 15") (simp_all add: ccitt_bit_eq crc16_round_eq xor_cancel_right)
  also have "(crc16_round x XOR (if bit y 15 then 0x1021 else 0)) XOR push_bit 1 y =
             crc16_round x XOR (push_bit 1 y XOR (if bit y 15 then 0x1021 else 0))"
    by (simp only: xor.assoc xor.commute [of "push_bit 1 y"])
  finally show ?thesis by (simp only: crc16_round_eq [of y])
qed

lemma crc16_round_0: "crc16_round 0 = 0"
  by (simp add: crc16_round_def)

lemma crc16_round_0_iff: "(crc16_round x = 0) = (x = 0)"
proof
  assume z: "crc16_round x = 0"
  have b0: "\<not> bit (push_bit 1 x) 0" by (simp only: bit_push_bit_iff) simp
  have top: "\<not> bit x 15"
  proof
    assume t: "bit x 15"
    then have "crc16_round x = push_bit 1 x XOR 0x1021" by (simp add: crc16_round_eq)
    then have "bit (crc16_round x) 0 = (bit (push_bit 1 x) 0 \<noteq> bit (0x1021 :: 16 word) 0)"
      by (simp only: bit_xor_iff)
    with b0 z show False by simp
  qed
  then have sh: "push_bit 1 x = 0" using z by (simp add: crc16_round_eq)
  show "x = 0"
  proof (rule bit_word_eqI)
    fix n assume n: "n < LENGTH(16)"
    show "bit x n = bit (0 :: 16 word) n"
    proof (cases "n = 15")
      case True
      with top show ?thesis by simp
    next
      case False
      with n have "Suc n < 16" by simp
      then have "bit (push_bit 1 x) (Suc n) = bit x n"
        by (simp only: bit_push_bit_iff) auto
      with sh show ?thesis by simp
    qed
  qed
qed (simp add: crc16_round_0)

lemma crc16_rounds_linear: "crc16_rounds n (x XOR y) = crc16_rounds n x XOR crc16_rounds n y"
  by (induction n arbitrary: x y) (simp_all add: crc16_round_linear)

lemma crc16_rounds_0_iff: "(crc16_rounds n x = 0) = (x = 0)"
  by (induction n arbitrary: x) (simp_all add: crc16_round_0_iff)

lemma crc16_rounds_add: "crc16_rounds (m + n) c = crc16_rounds n (crc16_rounds m c)"
  by (induction m arbitrary: c) simp_all

lemma crc16_byte_xor_state: "crc16_byte (c XOR d) b = crc16_byte c b XOR crc16_rounds 8 d"
proof -
  have "(c XOR d) XOR push_bit 8 (ucast b) = (c XOR push_bit 8 (ucast b)) XOR d"
    by (simp only: xor.assoc xor.commute [of d])
  then show ?thesis
    by (simp only: crc16_byte_def crc16_rounds_linear)
qed

lemma crc16_fold_xor_state:
  "foldl crc16_byte (c XOR d) bs = foldl crc16_byte c bs XOR crc16_rounds (8 * length bs) d"
proof (induction bs arbitrary: c d)
  case Nil
  show ?case by simp
next
  case (Cons b bs)
  have "foldl crc16_byte (c XOR d) (b # bs) = foldl crc16_byte (crc16_byte c b XOR crc16_rounds 8 d) bs"
    by (simp add: crc16_byte_xor_state)
  also have "\<dots> = foldl crc16_byte (crc16_byte c b) bs XOR crc16_rounds (8 * length bs) (crc16_rounds 8 d)"
    by (rule Cons.IH)
  also have "crc16_rounds (8 * length bs) (crc16_rounds 8 d) = crc16_rounds (8 + 8 * length bs) d"
    by (simp only: crc16_rounds_add)
  finally show ?case by simp
qed

lemma crc16_byte_xor_data:
  "crc16_byte c (b XOR e) = crc16_byte c b XOR crc16_rounds 8 (push_bit 8 (ucast e))"
proof -
  have "(push_bit 8 (ucast (b XOR e)) :: 16 word) = push_bit 8 (ucast b) XOR push_bit 8 (ucast e)"
    by (rule bit_word_eqI) (auto simp add: bit_push_bit_iff bit_ucast_iff bit_xor_iff)
  then have "c XOR push_bit 8 (ucast (b XOR e)) = (c XOR push_bit 8 (ucast b)) XOR push_bit 8 (ucast e)"
    by (simp only: xor.assoc)
  then show ?thesis
    by (simp only: crc16_byte_def crc16_rounds_linear)
qed

lemma byte_in_register_neq_0: "e \<noteq> 0 \<Longrightarrow> (push_bit 8 (ucast e) :: 16 word) \<noteq> 0" for e :: byte
proof
  assume e: "e \<noteq> 0" and z: "(push_bit 8 (ucast e) :: 16 word) = 0"
  have "e = 0"
  proof (rule bit_word_eqI)
    fix n assume n: "n < LENGTH(8)"
    have "bit (push_bit 8 (ucast e) :: 16 word) (8 + n) = bit e n"
      using n by (simp add: bit_push_bit_iff bit_ucast_iff)
    with z show "bit e n = bit (0 :: byte) n" by simp
  qed
  with e show False by simp
qed

lemma crc16_register_update:
  "j < length bs \<Longrightarrow> e \<noteq> 0 \<Longrightarrow>
   foldl crc16_byte r (bs[j := bs ! j XOR e]) \<noteq> foldl crc16_byte r bs"
proof (induction bs arbitrary: j r)
  case Nil
  then show ?case by simp
next
  case (Cons b bs)
  show ?case
  proof (cases j)
    case 0
    let ?d = "crc16_rounds 8 (push_bit 8 (ucast e))"
    have "foldl crc16_byte r ((b # bs)[0 := (b # bs) ! 0 XOR e]) =
          foldl crc16_byte (crc16_byte r b XOR ?d) bs"
      by (simp add: crc16_byte_xor_data)
    also have "\<dots> = foldl crc16_byte (crc16_byte r b) bs XOR crc16_rounds (8 * length bs) ?d"
      by (rule crc16_fold_xor_state)
    finally have "foldl crc16_byte r ((b # bs)[0 := (b # bs) ! 0 XOR e]) =
          foldl crc16_byte r (b # bs) XOR crc16_rounds (8 * length bs) ?d"
      by simp
    moreover have "crc16_rounds (8 * length bs) ?d \<noteq> 0"
      using byte_in_register_neq_0 [OF Cons.prems(2)] by (simp add: crc16_rounds_0_iff)
    ultimately show ?thesis
      unfolding 0 by (metis xor_eq_self_iff)
  next
    case (Suc k)
    with Cons.prems have "k < length bs" by simp
    from Cons.IH [OF this Cons.prems(2), of "crc16_byte r b"] show ?thesis
      unfolding Suc by simp
  qed
qed

lemma register_bytes_inj:
  fixes c c' :: "16 word"
  assumes "(ucast (drop_bit 8 c) :: byte) = ucast (drop_bit 8 c')" "(ucast c :: byte) = ucast c'"
  shows "c = c'"
proof (rule bit_word_eqI)
  fix n assume n: "n < LENGTH(16)"
  show "bit c n = bit c' n"
  proof (cases "n < 8")
    case True
    then have "bit (ucast c :: byte) n = bit c n" "bit (ucast c' :: byte) n = bit c' n"
      by (simp_all add: bit_ucast_iff)
    with assms(2) show ?thesis by simp
  next
    case False
    with n have m: "n - 8 < 8" "8 + (n - 8) = n" by simp_all
    then have "bit (ucast (drop_bit 8 c) :: byte) (n - 8) = bit c n"
              "bit (ucast (drop_bit 8 c') :: byte) (n - 8) = bit c' n"
      by (simp_all add: bit_ucast_iff bit_drop_bit_eq)
    with assms(1) show ?thesis by simp
  qed
qed

lemma CRC16_detects:
  assumes "j < length bs" "i < 8"
  shows "CRC16_calculate (bs[j := flip_bit i (bs ! j)]) \<noteq> CRC16_calculate bs"
proof
  assume eq: "CRC16_calculate (bs[j := flip_bit i (bs ! j)]) = CRC16_calculate bs"
  then have "CRC16_register (bs[j := flip_bit i (bs ! j)]) = CRC16_register bs"
    by (simp add: CRC16_calculate_def Let_def low_byte register_bytes_inj)
  with crc16_register_update [OF assms(1) push_bit_1_byte_neq_0 [OF assms(2)], of "0xFFFF"]
  show False
    by (simp add: CRC16_register_def flip_bit_byte_xor)
qed


lemma checksum_detects:
  assumes "integrity = CRC16 \<or> integrity = Parity"
    and "j < length (body @ Integrity_calculate integrity body)" and "i < 8"
  shows "Integrity_calculate integrity
           (take (length body) ((body @ Integrity_calculate integrity body)
              [j := flip_bit i ((body @ Integrity_calculate integrity body) ! j)])) \<noteq>
         drop (length body) ((body @ Integrity_calculate integrity body)
              [j := flip_bit i ((body @ Integrity_calculate integrity body) ! j)])"
proof (cases "j < length body")
  case True
  then have "Integrity_calculate integrity (body[j := flip_bit i (body ! j)]) \<noteq>
             Integrity_calculate integrity body"
    using assms(1,3) by (auto simp add: CRC16_detects Parity_detects)
  with True show ?thesis
    by (simp add: list_update_append nth_append)
next
  case False
  let ?chk = "Integrity_calculate integrity body"
  from False assms(2) have k: "j - length body < length ?chk" by simp
  have "?chk[j - length body := flip_bit i (?chk ! (j - length body))] ! (j - length body) \<noteq>
        ?chk ! (j - length body)"
    using k assms(3) by (simp add: flip_bit_byte_neq)
  then have "?chk[j - length body := flip_bit i (?chk ! (j - length body))] \<noteq> ?chk"
    by metis
  with False show ?thesis
    by (simp add: list_update_append nth_append)
qed

text \<open>C6. Whenever \<open>Serialize\<close> with the \<open>CRC16\<close> or the \<open>Parity\<close> policy succeeds
  (so the message passed validation), flipping any one bit of any byte of the used prefix
  of the buffer, whether in the header, the serdes payload or the checksum trailer, makes
  \<open>Deserialize\<close> return the \<open>Integrity\<close> error. This holds for every serdes policy.\<close>

theorem single_bit_flip_detected:
  assumes "integrity = CRC16 \<or> integrity = Parity"
    and "Serialize integrity Serdes Message b msg = Ok b'"
    and "j < used_bytes b'" and "i < 8"
  shows "Deserialize integrity Serdes Message
           (b'\<lparr>data := (data b')[j := flip_bit i (data b' ! j)]\<rparr>) out_message
         = Err Error_integrity"
proof -
  let ?cs = "Integrity_size integrity"
  from assms(1) have cs: "?cs > 0" by auto
  from Serialize_span [OF assms(2) cs] obtain body where
    span: "serialized_message_span b' = body @ Integrity_calculate integrity body"
    and used: "used_bytes b' = length body + ?cs"
    and le: "used_bytes b' \<le> length (data b')"
    by blast
  let ?s = "body @ Integrity_calculate integrity body"
  let ?s' = "?s[j := flip_bit i (?s ! j)]"
  have nth: "data b' ! j = ?s ! j"
    using assms(3) span [symmetric] by (simp add: serialized_message_span_def)
  have s': "serialized_message_span (b'\<lparr>data := (data b')[j := flip_bit i (data b' ! j)]\<rparr>) = ?s'"
    using assms(3) span nth by (simp add: serialized_message_span_def take_update_swap)
  have len: "length ?s' = length body + ?cs"
    by (simp add: Integrity_calculate_length)
  have j: "j < length ?s"
    using assms(3) used by (simp add: Integrity_calculate_length)
  from checksum_detects [OF assms(1) j assms(4)]
  have "Integrity_calculate integrity (take (length ?s' - ?cs) ?s') \<noteq> drop (length ?s' - ?cs) ?s'"
    by (simp only: len add_diff_cancel_right' not_False_eq_True)
  then show ?thesis
    unfolding Deserialize_def s' detail_Deserialize_def Let_def
    using cs by (simp only: len) simp
qed

theorem single_bit_flip_detected_witness:
  "Serialize CRC16 PackedLayout MyMessage (GetBuffer MyMessage CRC16 PackedLayout) my_message =
     Ok \<lparr>data = [3, 1, 120, 86, 52, 18, 120, 86, 52, 18, 1, 42, 0, 0, 0, 1, 241, 255, 28, 231],
         used_bytes = 20\<rparr>
   \<and> Deserialize CRC16 PackedLayout MyMessage
         \<lparr>data = [3, 1, 120, 86, 52, 18, 120, 86, 52, 18, 1, 43, 0, 0, 0, 1, 241, 255, 28, 231],
          used_bytes = 20\<rparr> (default_val MyMessage) = Err Error_integrity"
proof -
  let ?b = "\<lparr>data = [3, 1, 120, 86, 52, 18, 120, 86, 52, 18, 1, 42, 0, 0, 0, 1, 241, 255, 28, 231 :: byte],
         used_bytes = 20\<rparr>"
  have s: "Serialize CRC16 PackedLayout MyMessage (GetBuffer MyMessage CRC16 PackedLayout) my_message = Ok ?b"
    by code_simp
  have j: "11 < used_bytes ?b" by simp
  have "Deserialize CRC16 PackedLayout MyMessage
          (?b\<lparr>data := (data ?b)[11 := flip_bit 0 (data ?b ! 11)]\<rparr>) (default_val MyMessage)
        = Err Error_integrity"
    by (rule single_bit_flip_detected [OF _ s j]) simp_all
  moreover have "flip_bit 0 (42 :: byte) = 43" by (simp add: flip_bit_eq_xor)
  ultimately show ?thesis using s by simp
qed

section \<open>Decoder\<close>

lemma Decode_dispatch_result:
  "Decode_dispatch Serdes integrity Ms idx mid buf out_message = Ok (r, out') \<Longrightarrow>
   (case r of
      Some err \<Rightarrow> out' = out_message
    | None \<Rightarrow> \<exists>k msg. k < length Ms \<and> message_id_of (Ms ! k) = mid \<and>
          out' = (idx + k, msg) \<and>
          detail_Deserialize integrity Serdes (Ms ! k) buf (default_val (Ms ! k)) = Ok msg)"
proof (induction Ms arbitrary: idx)
  case Nil
  then show ?case by auto
next
  case (Cons M Ms)
  show ?case
  proof (cases "message_id_of M = mid")
    case True
    with Cons.prems show ?thesis
      by (cases "detail_Deserialize integrity Serdes M buf (default_val M)")
         (auto split: option.splits intro: exI [of _ 0])
  next
    case False
    with Cons.prems have
      "Decode_dispatch Serdes integrity Ms (Suc idx) mid buf out_message = Ok (r, out')"
      by simp
    from Cons.IH [OF this] show ?thesis
    proof (cases r)
      case None
      with \<open>case r of Some err \<Rightarrow> out' = out_message | None \<Rightarrow> _\<close>
      obtain k msg where "k < length Ms" "message_id_of (Ms ! k) = mid"
        "out' = (Suc idx + k, msg)"
        "detail_Deserialize integrity Serdes (Ms ! k) buf (default_val (Ms ! k)) = Ok msg"
        by auto
      then have "Suc k < length (M # Ms) \<and> message_id_of ((M # Ms) ! Suc k) = mid \<and>
          out' = (idx + Suc k, msg) \<and>
          detail_Deserialize integrity Serdes ((M # Ms) ! Suc k) buf (default_val ((M # Ms) ! Suc k)) = Ok msg"
        by simp
      with None show ?thesis by (simp del: nth_Cons_Suc)
    qed simp
  qed
qed

text \<open>C10. Whatever \<open>Decoder::Decode\<close> returns, if it is an error (a header that cannot
  be parsed, no message type with the header's id, or any error of the \<open>Deserialize\<close>
  pipeline of the matching type) the output variant is exactly what it was before the
  call; when it returns no error, the variant holds, at the index of a listed message
  type, the message that this type's \<open>Deserialize\<close> pipeline produced from a freshly
  constructed one.\<close>

theorem Decode_error_leaves_variant:
  assumes "Decode Serdes integrity Messages buf out_message = Ok (r, out')"
  shows "case r of
           Some err \<Rightarrow> out' = out_message
         | None \<Rightarrow> \<exists>k msg. k < length Messages \<and> out' = (k, msg) \<and>
             detail_Deserialize integrity Serdes (Messages ! k) buf
               (default_val (Messages ! k)) = Ok msg"
proof (cases "GetHeader buf")
  case (Inl err)
  with assms show ?thesis by (auto simp add: Decode_def)
next
  case (Inr header)
  with assms have
    "Decode_dispatch Serdes integrity Messages 0 (header_message_id header) buf out_message = Ok (r, out')"
    by (simp add: Decode_def)
  from Decode_dispatch_result [OF this] show ?thesis
    by (cases r) auto
qed

theorem Decode_error_leaves_variant_witness:
  "Decode PackedLayout Parity [MyMessage] [3, 1, 0x78, 0x56, 0x34, 0x12, 0, 0] (0, my_message) =
     Ok (Some Error_integrity, (0, my_message))
   \<and> (case Some Error_integrity of
         Some err \<Rightarrow> (0, my_message) = (0, my_message)
       | None \<Rightarrow> \<exists>k msg. k < length [MyMessage] \<and> (0, my_message) = (k, msg) \<and>
           detail_Deserialize Parity PackedLayout ([MyMessage] ! k) [3, 1, 0x78, 0x56, 0x34, 0x12, 0, 0]
             (default_val ([MyMessage] ! k)) = Ok msg)"
proof -
  have d: "Decode PackedLayout Parity [MyMessage] [3, 1, 0x78, 0x56, 0x34, 0x12, 0, 0] (0, my_message) =
     Ok (Some Error_integrity, (0, my_message))"
    by code_simp
  from Decode_error_leaves_variant [OF d] d show ?thesis by simp
qed

section \<open>MapField::insert\<close>

text \<open>C7 (amended). For a key and a value that pass their validators: when the map
  already holds \<open>MaxSize\<close> pairs, \<open>insert\<close> returns the \<open>CapacityExceeded\<close> error with the
  map's field id and leaves the map unchanged, whether or not the key is present (the
  capacity check comes first); when the map holds fewer than \<open>MaxSize\<close> pairs and the key
  is already present, \<open>insert\<close> returns the \<open>Validation\<close> error "Duplicate key in map" with
  the map's field id and leaves the map unchanged; and \<open>CapacityExceeded\<close> is returned
  exactly when the map already holds \<open>MaxSize\<close> pairs.\<close>

theorem MapField_insert_errors:
  assumes "kind_Validate K k = None" and "kind_Validate V v = None"
  shows "(MaxSize \<le> map_current_len m \<longrightarrow>
            MapField_insert fid MaxSize K V k v m =
              (Some (Error_capacity_exceeded fid ''map capacity exceeded''), m))
         \<and> (map_current_len m < MaxSize \<and> MapField_at K m k \<noteq> None \<longrightarrow>
            MapField_insert fid MaxSize K V k v m =
              (Some (Error_validation fid ''Duplicate key in map''), m))
         \<and> ((\<exists>e. fst (MapField_insert fid MaxSize K V k v m) = Some e \<and> code e = CapacityExceeded)
              \<longleftrightarrow> MaxSize \<le> map_current_len m)
         \<and> code (Error_capacity_exceeded fid ''map capacity exceeded'') = CapacityExceeded
         \<and> field_id (Error_capacity_exceeded fid ''map capacity exceeded'') = fid
         \<and> code (Error_validation fid ''Duplicate key in map'') = ValidationFailed
         \<and> field_id (Error_validation fid ''Duplicate key in map'') = fid"
  using assms
  by (auto simp add: MapField_insert_def Let_def Error_capacity_exceeded_def Error_validation_def
      split: option.splits if_splits)

theorem MapField_insert_errors_witness:
  "MapField_insert 1 2 (ScalarKind [None_Check]) (ScalarKind [None_Check]) 5 9
         \<lparr>map_items = [(5, 7), (0, 0 :: int)], map_current_len = 1\<rparr> =
       (Some (Error_validation 1 ''Duplicate key in map''),
        \<lparr>map_items = [(5, 7), (0, 0)], map_current_len = 1\<rparr>)
   \<and> MapField_insert 1 1 (ScalarKind [None_Check]) (ScalarKind [None_Check]) 6 9
         \<lparr>map_items = [(5, 7 :: int)], map_current_len = 1\<rparr> =
       (Some (Error_capacity_exceeded 1 ''map capacity exceeded''),
        \<lparr>map_items = [(5, 7)], map_current_len = 1\<rparr>)
   \<and> \<not> (\<exists>e. fst (MapField_insert 1 2 (ScalarKind [None_Check]) (ScalarKind [None_Check]) 6 9
                 \<lparr>map_items = [(5, 7), (0, 0 :: int)], map_current_len = 0\<rparr>) = Some e
            \<and> code e = CapacityExceeded)"
proof -
  let ?K = "ScalarKind [None_Check]"
  let ?m = "\<lparr>map_items = [(5, 7), (0, 0)], map_current_len = 1\<rparr> :: (int, int) MapField"
  let ?full = "\<lparr>map_items = [(5, 7)], map_current_len = 1\<rparr> :: (int, int) MapField"
  let ?empty = "\<lparr>map_items = [(5, 7), (0, 0)], map_current_len = 0\<rparr> :: (int, int) MapField"
  have 1: "kind_Validate ?K 5 = None" and 2: "kind_Validate ?K 9 = None"
    and 3: "kind_Validate ?K 6 = None"
    by (simp_all add: ScalarKind_def Scalar_Validate_def None_Check_def)
  have 4: "MapField_at ?K ?m 5 \<noteq> None"
    by (simp add: MapField_at_def key_equals_def ScalarKind_def)
  from MapField_insert_errors [OF 1 2, of 2 ?m 1] 4
  have a: "MapField_insert 1 2 ?K ?K 5 9 ?m = (Some (Error_validation 1 ''Duplicate key in map''), ?m)"
    by simp
  from MapField_insert_errors [OF 3 2, of 1 ?full 1]
  have b: "MapField_insert 1 1 ?K ?K 6 9 ?full =
      (Some (Error_capacity_exceeded 1 ''map capacity exceeded''), ?full)"
    by simp
  from MapField_insert_errors [OF 3 2, of 2 ?empty 1]
  have c: "\<not> (\<exists>e. fst (MapField_insert 1 2 ?K ?K 6 9 ?empty) = Some e \<and> code e = CapacityExceeded)"
    by simp
  from a b c show ?thesis by simp
qed

text \<open>C7 as stated fails on a full map: inserting the present key 5 into a map of
  capacity 1 that holds it returns \<open>CapacityExceeded\<close>, not the duplicate-key error.\<close>

theorem MapField_insert_full_map_counterexample:
  "kind_Validate (ScalarKind [None_Check]) 5 = None
   \<and> kind_Validate (ScalarKind [None_Check]) 9 = None
   \<and> MapField_at (ScalarKind [None_Check])
         \<lparr>map_items = [(5, 7 :: int)], map_current_len = 1\<rparr> 5 = Some 0
   \<and> MapField_insert 1 1 (ScalarKind [None_Check]) (ScalarKind [None_Check]) 5 9
         \<lparr>map_items = [(5, 7)], map_current_len = 1\<rparr> =
       (Some (Error_capacity_exceeded 1 ''map capacity exceeded''),
        \<lparr>map_items = [(5, 7)], map_current_len = 1\<rparr>)
   \<and> code (Error_capacity_exceeded 1 ''map capacity exceeded'') \<noteq> ValidationFailed"
  by (simp add: MapField_insert_def MapField_at_def key_equals_def ScalarKind_def
      Scalar_Validate_def None_Check_def Error_capacity_exceeded_def)

section \<open>String\<close>

lemma String_default_inv: "String_inv MaxSize (String_default MaxSize)"
  by (simp add: String_inv_def String_default_def list_all_iff)

lemma String_clear_inv: "String_inv MaxSize s \<Longrightarrow> String_inv MaxSize (String_clear s)"
  by (simp add: String_inv_def String_clear_def list_all_iff)

lemma String_set_inv:
  "String_inv MaxSize s \<Longrightarrow> String_inv MaxSize (snd (String_set MaxSize Validators sv s))"
  by (auto simp add: String_inv_def String_set_def Let_def list_all_iff split: option.splits)

lemma String_construct_inv: "String_inv MaxSize (String_construct MaxSize Validators sv)"
  unfolding String_construct_def by (rule String_set_inv) (rule String_default_inv)

text \<open>C5. Construction, \<open>set\<close> and \<open>clear\<close> keep the invariant (the four lemmas
  above), but the static layout's \<open>deserialize_string\<close> does not: it copies all
  \<open>MaxSize\<close> bytes of the slot into the buffer and stores the length prefix next to
  them. A packed buffer whose string slot declares length 1 and carries the bytes
  "abcd" deserializes without error into a string of length 1 whose buffer still holds
  "bcd" after the length.\<close>

theorem deserialize_string_keeps_trailing_bytes:
  "Deserialize Integrity_None PackedLayout StringMessage
     \<lparr>data = [3, 1, 0x01, 0xA0, 0, 0,  0x01, 0xA0, 0, 0,  1,  1, 0, 0, 0,  0x61, 0x62, 0x63, 0x64],
      used_bytes = 19\<rparr>
     (default_val StringMessage) =
   Ok (VMessage [FieldV (VString \<lparr>buffer = [0x61, 0x62, 0x63, 0x64], current_len = 1\<rparr>) True])
   \<and> String_inv 4 (String_default 4)
   \<and> \<not> String_inv 4 \<lparr>buffer = [0x61, 0x62, 0x63, 0x64], current_len = 1\<rparr>"
  by code_simp


section \<open>Static layout: sizes and round trips\<close>

text \<open>C2. \<open>MyMessage\<close> with f1 = 42 and f2 = -15 is claimed to take exactly 20 bytes
  under \<open>Aligned4\<close>, with zero bytes at offsets 6, 9 and 17. The buffer and the encoding
  are 24 bytes: after the header and its two padding bytes \<open>StaticLayout::Serialize\<close>
  writes the message id once more at offsets 8 to 11, so the byte at offset 9 is 0x56, f1's
  flag is at 12 and its value at 16, f2's flag at 20 and its value at 22.\<close>

theorem Aligned4_MyMessage_is_24_bytes:
  "GetBufferSize MyMessage Integrity_None Aligned32Layout = 24
   \<and> Serialize Integrity_None Aligned32Layout MyMessage
         (GetBuffer MyMessage Integrity_None Aligned32Layout) my_message =
       Ok \<lparr>data = [3, 2, 0x78, 0x56, 0x34, 0x12, 0, 0, 0x78, 0x56, 0x34, 0x12,
                    1, 0, 0, 0, 42, 0, 0, 0, 1, 0, 0xF1, 0xFF],
           used_bytes = 24\<rparr>"
  by code_simp

text \<open>C3. \<open>StaticLayout<A>::Serialize\<close> is claimed to return \<open>Size<M>()\<close> for every
  alignment. Under alignment 8 it does not: \<open>Size\<close> pads offsets counted from 0, whereas
  \<open>Serialize\<close> pads the offsets of the buffer, which start at 12. For \<open>OuterMessage\<close>
  \<open>Size\<close> is 26 and \<open>Serialize\<close> returns 22; for \<open>WideMessage\<close> \<open>Size\<close> is 26 and
  \<open>Serialize\<close> needs 30 bytes, so it writes past a span of \<open>Size\<close> bytes.\<close>

theorem Aligned8_Serialize_differs_from_Size:
  "StaticLayout_Size 8 OuterMessage = 26
   \<and> StaticLayout_Serialize 8 OuterMessage outer_message (replicate 26 0) =
       Ok ([0, 0, 0, 0, 0, 0, 0, 0, 0x11, 0x11, 0, 0, 1, 0, 0, 0, 0x22, 0x22, 0, 0, 1, 7,
            0, 0, 0, 0], 22)
   \<and> StaticLayout_Size 8 WideMessage = 26
   \<and> StaticLayout_Serialize 8 WideMessage (default_val WideMessage) (replicate 26 0) = Undefined
   \<and> StaticLayout_Serialize 8 WideMessage (default_val WideMessage) (replicate 30 0) =
       Ok ([0, 0, 0, 0, 0, 0, 0, 0, 0x55, 0x55, 0, 0, 0, 0, 0, 0, 0, 0, 0, 0, 0, 0, 0, 0,
            0, 0, 0, 0, 0, 0], 30)"
  by code_simp

text \<open>C1. The round trip is claimed for every valid message and every serdes policy.
  Under \<open>Aligned8\<close> with \<open>CRC16\<close> the valid \<open>ListMessage\<close> above serializes and
  deserializes without error, but into a different message: the array element ends at
  offset 30, \<open>deserialize_array\<close> continues at the offset 34 that
  \<open>calculate_array_end_offset\<close> gives, and the two fields after the array are read from
  padding bytes as unset.\<close>

theorem Aligned8_round_trip_loses_fields:
  "Validate ListMessage list_message = None
   \<and> Serialize CRC16 Aligned64Layout ListMessage
         (GetBuffer ListMessage CRC16 Aligned64Layout) list_message =
       Ok \<lparr>data = [3, 3, 0x44, 0x44, 0, 0, 0, 0, 0x44, 0x44, 0, 0, 1, 0, 0, 0,
                    0x11, 0x11, 0, 0, 0, 0, 0, 0, 0, 0, 0, 0, 0, 0, 1, 5,
                    1, 0, 0, 0, 0, 0, 0, 0, 0x22, 0x22, 0, 0, 1, 7, 187, 103,
                    0, 0, 0, 0],
           used_bytes = 48\<rparr>
   \<and> Deserialize CRC16 Aligned64Layout ListMessage
         \<lparr>data = [3, 3, 0x44, 0x44, 0, 0, 0, 0, 0x44, 0x44, 0, 0, 1, 0, 0, 0,
                  0x11, 0x11, 0, 0, 0, 0, 0, 0, 0, 0, 0, 0, 0, 0, 1, 5,
                  1, 0, 0, 0, 0, 0, 0, 0, 0x22, 0x22, 0, 0, 1, 7, 187, 103,
                  0, 0, 0, 0],
          used_bytes = 48\<rparr> (default_val ListMessage) =
       Ok (VMessage
            [MemberV (VArrayField [VMessage [FieldV (VMessage [FieldV (VScalar 0) False]) False]] 1),
             FieldV (VScalar 0) False,
             FieldV (VMessage [FieldV (VScalar 0) False]) False])
   \<and> \<not> val_eq ListMessage
         (VMessage
            [MemberV (VArrayField [VMessage [FieldV (VMessage [FieldV (VScalar 0) False]) False]] 1),
             FieldV (VScalar 0) False,
             FieldV (VMessage [FieldV (VScalar 0) False]) False])
         list_message"
  by code_simp

end
